theory Spec2Isabelle
  imports Main
begin

section \<open>JavaScript values\<close>

text \<open>
  The dispatcher of \<^verbatim>\<open>hasura.module.ts\<close> inspects untyped payloads
  (\<^verbatim>\<open>value: any\<close>), so the values it meets are modelled as a datatype of
  JavaScript values as a JSON body delivers them. Of a number the program observes only
  its truthiness and its rendering in a template literal or an array join, so a number is
  given by its canonical rendering \<^verbatim>\<open>String(n)\<close>: \<^verbatim>\<open>0\<close> and
  \<^verbatim>\<open>-0\<close> both render as \<^verbatim>\<open>"0"\<close>, \<^verbatim>\<open>NaN\<close> as \<^verbatim>\<open>"NaN"\<close>, and
  these are the falsy numbers. An object is the list of its own properties, as
  \<^verbatim>\<open>JSON.parse\<close> creates them: its prototype is \<^verbatim>\<open>Object.prototype\<close> and no
  property of it is callable.
\<close>

datatype jsval =
    JUndefined
  | JNull
  | JBool bool
  | JNum string
  | JStr string
  | JArr "jsval list"
  | JObj "(string \<times> jsval) list"

type_synonym js_object = "(string \<times> jsval) list"

text \<open>ToBoolean: what \<^verbatim>\<open>!v\<close>, \<^verbatim>\<open>v && w\<close>, \<^verbatim>\<open>v || w\<close> and \<^verbatim>\<open>v ? a : b\<close> test.\<close>

fun truthy :: "jsval \<Rightarrow> bool" where
  "truthy JUndefined = False"
| "truthy JNull = False"
| "truthy (JBool b) = b"
| "truthy (JNum r) = (r \<noteq> ''0'' \<and> r \<noteq> ''NaN'')"
| "truthy (JStr s) = (s \<noteq> [])"
| "truthy (JArr xs) = True"
| "truthy (JObj ps) = True"

text \<open>The operator \<^verbatim>\<open>a && b\<close> yields \<^verbatim>\<open>a\<close> itself when \<^verbatim>\<open>a\<close> is falsy.\<close>

definition js_and :: "jsval \<Rightarrow> jsval \<Rightarrow> jsval" where
  "js_and a b = (if truthy a then b else a)"

text \<open>The operator \<^verbatim>\<open>typeof\<close>; \<^verbatim>\<open>typeof null\<close> is \<^verbatim>\<open>'object'\<close>.\<close>

fun typeof :: "jsval \<Rightarrow> string" where
  "typeof JUndefined = ''undefined''"
| "typeof JNull = ''object''"
| "typeof (JBool b) = ''boolean''"
| "typeof (JNum r) = ''number''"
| "typeof (JStr s) = ''string''"
| "typeof (JArr xs) = ''object''"
| "typeof (JObj ps) = ''object''"

section \<open>Errors\<close>

text \<open>
  What the module throws: a plain \<^verbatim>\<open>Error\<close> with its message, or the framework's
  \<^verbatim>\<open>BadRequestException\<close> with its message; and the \<^verbatim>\<open>TypeError\<close> the language
  throws when a value has no string conversion (its message is the engine's own).
\<close>

datatype exn = Error string | BadRequestException string | TypeError

section \<open>Conversion to strings\<close>

text \<open>\<^verbatim>\<open>Array.prototype.join\<close> on strings already converted.\<close>

fun join_strings :: "string \<Rightarrow> string list \<Rightarrow> string" where
  "join_strings sep [] = []"
| "join_strings sep [s] = s"
| "join_strings sep (s # t # ts) = s @ sep @ join_strings sep (t # ts)"

text \<open>The results of the conversions of the elements, or the first exception among them.\<close>

fun first_throw :: "(exn + 'a) list \<Rightarrow> exn + 'a list" where
  "first_throw [] = Inr []"
| "first_throw (Inl e # rs) = Inl e"
| "first_throw (Inr a # rs) = (case first_throw rs of Inl e \<Rightarrow> Inl e | Inr as \<Rightarrow> Inr (a # as))"

text \<open>
  ToString, as a template literal \<^verbatim>\<open>`${v}`\<close> applies it. An array converts by
  \<^verbatim>\<open>join(',')\<close>, in which \<^verbatim>\<open>undefined\<close> and \<^verbatim>\<open>null\<close> elements give the
  empty string and every other element is converted in turn. An object converts by its
  \<^verbatim>\<open>toString\<close> method and then its \<^verbatim>\<open>valueOf\<close> method. When it has no own
  property \<^verbatim>\<open>toString\<close>, the inherited method gives \<^verbatim>\<open>[object Object]\<close>. An
  own property \<^verbatim>\<open>toString\<close> is not callable, so \<^verbatim>\<open>valueOf\<close> is tried: an own one
  is not callable either, the inherited one returns the object itself, which is no
  primitive value, and the conversion throws a \<^verbatim>\<open>TypeError\<close>.
\<close>

fun ToString :: "jsval \<Rightarrow> exn + string" where
  "ToString JUndefined = Inr ''undefined''"
| "ToString JNull = Inr ''null''"
| "ToString (JBool b) = Inr (if b then ''true'' else ''false'')"
| "ToString (JNum r) = Inr r"
| "ToString (JStr s) = Inr s"
| "ToString (JArr xs) =
     (case first_throw (map (\<lambda>v. if v = JUndefined \<or> v = JNull then Inr [] else ToString v) xs) of
        Inl e \<Rightarrow> Inl e
      | Inr ss \<Rightarrow> Inr (join_strings '','' ss))"
| "ToString (JObj ps) =
     (case map_of ps ''toString'' of
        None \<Rightarrow> Inr ''[object Object]''
      | Some v \<Rightarrow> Inl TypeError)"

section \<open>Properties\<close>

text \<open>
  Reading a property of an object: \<^verbatim>\<open>o.k\<close> is \<^verbatim>\<open>undefined\<close> when the object
  has no property \<^verbatim>\<open>k\<close>. The names read by the module (\<^verbatim>\<open>id\<close>, \<^verbatim>\<open>table\<close>,
  \<^verbatim>\<open>trigger\<close>, \<^verbatim>\<open>name\<close>, \<^verbatim>\<open>scheduled_time\<close>, \<^verbatim>\<open>payload\<close>,
  \<^verbatim>\<open>schema\<close>) are not defined by any built-in prototype. An object has one value for
  a name; in a list that names a property twice the first entry is the property.
\<close>

definition get_prop :: "js_object \<Rightarrow> string \<Rightarrow> jsval" where
  "get_prop obj k = (case map_of obj k of None \<Rightarrow> JUndefined | Some v \<Rightarrow> v)"

text \<open>
  Optional chaining \<^verbatim>\<open>v?.k\<close>, for the names \<^verbatim>\<open>name\<close> and \<^verbatim>\<open>schema\<close>:
  \<^verbatim>\<open>undefined\<close> on \<^verbatim>\<open>null\<close> and \<^verbatim>\<open>undefined\<close>, and also on arrays and
  primitives, which have no such property.
\<close>

fun opt_prop :: "jsval \<Rightarrow> string \<Rightarrow> jsval" where
  "opt_prop (JObj ps) k = get_prop ps k"
| "opt_prop v k = JUndefined"

section \<open>Event classification and dispatch\<close>

text \<open>
  The payload handed to \<^verbatim>\<open>handleEvent\<close> is an object, as the parameter's type
  \<^verbatim>\<open>Partial<HasuraEvent> | HasuraScheduledEventPayload\<close> says; what its fields hold is
  not restricted.
\<close>

text \<open>Lines 31 to 37.\<close>

definition isHasuraEvent :: "js_object \<Rightarrow> jsval" where
  "isHasuraEvent v =
     js_and (js_and (get_prop v ''id'') (JBool (typeof (get_prop v ''table'') = ''object'')))
       (JBool (typeof (get_prop v ''trigger'') = ''object''))"

text \<open>Lines 39 to 48.\<close>

definition isHasuraScheduledEventPayload :: "js_object \<Rightarrow> jsval" where
  "isHasuraScheduledEventPayload v =
     js_and (js_and (js_and (get_prop v ''id'') (get_prop v ''name'')) (get_prop v ''scheduled_time''))
       (JBool (typeof (get_prop v ''payload'') = ''object''))"

text \<open>
  Lines 219 to 223: the candidate keys of a payload, \<^verbatim>\<open>null\<close> (here \<open>None\<close>) when
  it has neither shape. The template literal of line 220 converts
  \<^verbatim>\<open>evt?.table?.schema\<close> and then \<^verbatim>\<open>evt?.table?.name\<close>, and either conversion
  may throw.
\<close>

definition event_keys :: "js_object \<Rightarrow> exn + jsval list option" where
  "event_keys evt =
     (if truthy (isHasuraEvent evt)
      then (case ToString (opt_prop (get_prop evt ''table'') ''schema'') of
              Inl e \<Rightarrow> Inl e
            | Inr s \<Rightarrow>
                (case ToString (opt_prop (get_prop evt ''table'') ''name'') of
                   Inl e \<Rightarrow> Inl e
                 | Inr n \<Rightarrow> Inr (Some [opt_prop (get_prop evt ''trigger'') ''name'', JStr (s @ ''-'' @ n)])))
      else if truthy (isHasuraScheduledEventPayload evt)
      then Inr (Some [get_prop evt ''name''])
      else Inr None)"

text \<open>
  An entry of the handler list built at start-up (lines 206 to 213): its routing key and
  the invocable handler. A call of a handler returns a promise, given here by the way it
  settles: \<open>Inl e\<close> when it rejects with \<open>e\<close>, \<open>Inr r\<close> when it fulfils with \<open>r\<close>.
\<close>

record ('e, 'r) event_entry =
  key :: string
  handler :: "js_object \<Rightarrow> 'e + 'r"

text \<open>
  Line 227: \<^verbatim>\<open>eventHandlers.filter((x) => keys.includes(x.key))\<close>. The method
  \<^verbatim>\<open>includes\<close> compares without conversion, so a string key is found only as a
  string.
\<close>

definition matching :: "('e, 'r) event_entry list \<Rightarrow> jsval list \<Rightarrow> ('e, 'r) event_entry list" where
  "matching eventHandlers keys = filter (\<lambda>x. JStr (key x) \<in> set keys) eventHandlers"

text \<open>
  Lines 218 to 240. The first argument is \<^verbatim>\<open>this.hasuraModuleConfig.enableEventLogs\<close>.
  \<open>Inl\<close> is an exception thrown by \<^verbatim>\<open>handleEvent\<close> itself, before any handler is
  called. \<open>Inr ps\<close> is the array \<^verbatim>\<open>handlers.map((x) => x.handler(evt))\<close> that is
  passed to \<^verbatim>\<open>Promise.all\<close>: every matching handler has been called with the
  payload, in the order of the handler list, and \<open>ps\<close> holds their promises. The
  template literals of lines 230 and 236 convert the array \<^verbatim>\<open>keys\<close> to a string,
  which may throw; the logger itself does nothing to the control flow.
\<close>

definition handleEvent ::
  "bool \<Rightarrow> ('e, 'r) event_entry list \<Rightarrow> js_object \<Rightarrow> exn + ('e + 'r) list" where
  "handleEvent enableEventLogs eventHandlers evt =
     (case event_keys evt of
        Inl e \<Rightarrow> Inl e
      | Inr None \<Rightarrow> Inl (Error ''Not a Hasura Event'')
      | Inr (Some keys) \<Rightarrow>
          (let handlers = matching eventHandlers keys in
           case (if enableEventLogs then ToString (JArr keys) else Inr []) of
             Inl e \<Rightarrow> Inl e
           | Inr logged \<Rightarrow>
               if handlers \<noteq> []
               then Inr (map (\<lambda>x. handler x evt) handlers)
               else (case ToString (JArr keys) of
                       Inl e \<Rightarrow> Inl e
                     | Inr s \<Rightarrow> Inl (BadRequestException (''Handler not found for '' @ s)))))"

text \<open>
  \<^verbatim>\<open>handleEvent\<close> calls \<^verbatim>\<open>x.handler(evt)\<close> when it gets as far as line 234, which
  is when it returns, and then for the members \<^verbatim>\<open>x\<close> of \<^verbatim>\<open>handlers\<close> (line 227)
  and for no other entry.
\<close>

definition invokes ::
  "bool \<Rightarrow> ('e, 'r) event_entry list \<Rightarrow> js_object \<Rightarrow> ('e, 'r) event_entry \<Rightarrow> bool" where
  "invokes enableEventLogs eventHandlers evt x =
     (case handleEvent enableEventLogs eventHandlers evt of
        Inl e \<Rightarrow> False
      | Inr ps \<Rightarrow>
          (case event_keys evt of
             Inr (Some keys) \<Rightarrow> x \<in> set (matching eventHandlers keys)
           | _ \<Rightarrow> False))"

section \<open>Discovery and the handler tables\<close>

text \<open>
  One result of \<^verbatim>\<open>providerMethodsWithMetaAtKey\<close>: the name of the declaring class
  (\<^verbatim>\<open>discoveredMethod.parentClass.name\<close>), the method's name, the method itself and
  the metadata of its decorator. \<^verbatim>\<open>externalContextCreator.create\<close> turns the method
  into a callable bound to its instance; calling that callable runs the method and
  returns a promise, so the callable is identified with \<open>method_handler\<close>.
\<close>

record ('m, 'h) discovered =
  parentClass_name :: string
  methodName :: string
  method_handler :: 'h
  meta :: 'm

text \<open>
  Modelled from the spec: the interface \<^verbatim>\<open>HasuraEventHandlerConfig\<close> of
  \<^verbatim>\<open>hasura.events.interfaces\<close>, which is not among the sources. The spec gives it as
  \<^verbatim>\<open>triggerName?: string\<close> and \<^verbatim>\<open>table?: { schema?: string; name: string }\<close>.
\<close>

record table_ref =
  schema :: "string option"
  name :: string

record HasuraEventHandlerConfig =
  triggerName :: "string option"
  table :: "table_ref option"

text \<open>Truthiness of an optional string: absent and empty are falsy.\<close>

fun string_set :: "string option \<Rightarrow> bool" where
  "string_set None = False"
| "string_set (Some s) = (s \<noteq> [])"

text \<open>
  Lines 202 to 204, the template literal
  \<^verbatim>\<open>`${config.table?.schema ? config.table?.schema : 'public'}-${config.table?.name}`\<close>.
\<close>

fun table_key :: "table_ref option \<Rightarrow> string" where
  "table_key None = ''public'' @ ''-'' @ ''undefined''"
| "table_key (Some t) =
     (case schema t of
        None \<Rightarrow> ''public''
      | Some s \<Rightarrow> if s \<noteq> [] then s else ''public'') @ ''-'' @ name t"

text \<open>Lines 200 to 204: \<^verbatim>\<open>config.triggerName || `...`\<close>.\<close>

definition routing_key :: "HasuraEventHandlerConfig \<Rightarrow> string" where
  "routing_key config =
     (case triggerName config of
        None \<Rightarrow> table_key (table config)
      | Some s \<Rightarrow> if s \<noteq> [] then s else table_key (table config))"

text \<open>Lines 200 to 213: the entry made of a binding.\<close>

definition event_entry_of ::
  "(HasuraEventHandlerConfig, js_object \<Rightarrow> 'e + 'r) discovered \<Rightarrow> ('e, 'r) event_entry" where
  "event_entry_of d = \<lparr>key = routing_key (meta d), handler = method_handler d\<rparr>"

text \<open>Lines 181 to 214, the function mapped over the bindings of one class.\<close>

definition register_event ::
  "(HasuraEventHandlerConfig, js_object \<Rightarrow> 'e + 'r) discovered \<Rightarrow> exn + ('e, 'r) event_entry" where
  "register_event d =
     (let config = meta d in
      if table config = None \<and> \<not> string_set (triggerName config)
      then Inl (Error ''Hasura Event Handler is invalid. Specify either trigger name or table mapping'')
      else Inr (event_entry_of d))"

text \<open>
  \<^verbatim>\<open>groupBy\<close> of lodash builds an object: for each element in turn it adds the
  element to the array of the property named by the element's group, creating the
  property when the object does not have it. The object is the list of its properties
  in the order of their creation.
\<close>

fun group_add :: "('a \<Rightarrow> string) \<Rightarrow> 'a \<Rightarrow> (string \<times> 'a list) list \<Rightarrow> (string \<times> 'a list) list" where
  "group_add f x [] = [(f x, [x])]"
| "group_add f x ((k, ys) # g) =
     (if k = f x then (k, ys @ [x]) # g else (k, ys) # group_add f x g)"

definition groupBy :: "'a list \<Rightarrow> ('a \<Rightarrow> string) \<Rightarrow> (string \<times> 'a list) list" where
  "groupBy xs f = fold (group_add f) xs []"

text \<open>
  \<^verbatim>\<open>Object.keys\<close> lists the property names that are array indices first, in
  ascending numeric order, and then the other names in the order of their creation. An
  array index is the canonical decimal numeral of an integer from 0 to
  4294967294: digits only, and no leading zero but in \<^verbatim>\<open>0\<close> itself.
\<close>

definition is_digit :: "char \<Rightarrow> bool" where
  "is_digit c = (c \<in> set ''0123456789'')"

text \<open>The value of a digit is its place among the ten digits.\<close>

definition digit_value :: "char \<Rightarrow> nat" where
  "digit_value c = length (takeWhile (\<lambda>d. d \<noteq> c) ''0123456789'')"

definition decimal :: "string \<Rightarrow> nat" where
  "decimal s = fold (\<lambda>c n. 10 * n + digit_value c) s 0"

fun is_array_index :: "string \<Rightarrow> bool" where
  "is_array_index [] = False"
| "is_array_index (c # cs) =
     (list_all is_digit (c # cs) \<and> (c \<noteq> CHR ''0'' \<or> cs = []) \<and> decimal (c # cs) < 4294967295)"

text \<open>
  The properties of an object in the order of \<^verbatim>\<open>Object.keys\<close>, each with its
  value: what \<^verbatim>\<open>Object.keys(grouped).map((x) => ... grouped[x] ...)\<close> goes through.
\<close>

definition own_properties :: "(string \<times> 'a) list \<Rightarrow> (string \<times> 'a) list" where
  "own_properties ps =
     sort_key (\<lambda>p. decimal (fst p)) (filter (\<lambda>p. is_array_index (fst p)) ps)
     @ filter (\<lambda>p. \<not> is_array_index (fst p)) ps"

text \<open>\<^verbatim>\<open>Array.prototype.map\<close> with a callback that may throw: the first throw ends it.\<close>

fun map_throw :: "('a \<Rightarrow> exn + 'b) \<Rightarrow> 'a list \<Rightarrow> exn + 'b list" where
  "map_throw f [] = Inr []"
| "map_throw f (x # xs) =
     (case f x of
        Inl e \<Rightarrow> Inl e
      | Inr y \<Rightarrow> (case map_throw f xs of Inl e \<Rightarrow> Inl e | Inr ys \<Rightarrow> Inr (y # ys)))"

text \<open>Lines 172 to 216: the constant \<^verbatim>\<open>eventHandlers\<close>, or the exception thrown.\<close>

definition eventHandlers_of ::
  "(HasuraEventHandlerConfig, js_object \<Rightarrow> 'e + 'r) discovered list \<Rightarrow> exn + ('e, 'r) event_entry list" where
  "eventHandlers_of eventHandlerMeta =
     (let grouped = groupBy eventHandlerMeta parentClass_name in
      case map_throw (\<lambda>(x, bindings). map_throw register_event bindings) (own_properties grouped) of
        Inl e \<Rightarrow> Inl e
      | Inr yss \<Rightarrow> Inr (concat yss))"

text \<open>
  Lines 157 to 243. The first argument is \<^verbatim>\<open>enableEventLogs\<close> of the module's
  configuration; the second tells whether discovery found an instance of
  \<^verbatim>\<open>EventHandlerService\<close> (line 164). The result is the function that line 242
  assigns to \<^verbatim>\<open>eventHandlerService.handleEvent\<close>.
\<close>

definition configureHasuraEventHandlers ::
  "bool \<Rightarrow> bool \<Rightarrow> (HasuraEventHandlerConfig, js_object \<Rightarrow> 'e + 'r) discovered list
     \<Rightarrow> exn + (js_object \<Rightarrow> exn + ('e + 'r) list)" where
  "configureHasuraEventHandlers enableEventLogs serviceFound eventHandlerMeta =
     (if \<not> serviceFound then Inl (Error ''Could not find Hasura Event Handler Service.'')
      else case eventHandlers_of eventHandlerMeta of
             Inl e \<Rightarrow> Inl e
           | Inr eventHandlers \<Rightarrow> Inr (handleEvent enableEventLogs eventHandlers))"

section \<open>Actions\<close>

text \<open>
  Modelled from the spec: the interface \<^verbatim>\<open>HasuraAction\<close> of
  \<^verbatim>\<open>hasura.actions.interfaces\<close>, which is not among the sources. The spec gives it as
  \<^verbatim>\<open>{ action: { name }, input, ...context }\<close>; the context is the session variables.
\<close>

record action_info =
  action_name :: string

record HasuraAction =
  action :: action_info
  input :: jsval
  session_variables :: "(string \<times> string) list"

type_synonym headers = "(string \<times> string) list"

type_synonym ('e, 'r) action_handler = "jsval \<Rightarrow> HasuraAction \<Rightarrow> headers \<Rightarrow> 'e + 'r"

text \<open>Lines 117 to 135: the pairs \<^verbatim>\<open>[actionName, callable]\<close>, flattened.\<close>

definition actionHandlers_of ::
  "(string, ('e, 'r) action_handler) discovered list \<Rightarrow> (string \<times> ('e, 'r) action_handler) list" where
  "actionHandlers_of actionHandlerNames =
     (let grouped = groupBy actionHandlerNames parentClass_name in
      concat (map (\<lambda>(x, methods). map (\<lambda>d. (meta d, method_handler d)) methods)
        (own_properties grouped)))"

text \<open>
  Line 138: \<^verbatim>\<open>new Map(entries)\<close> sets the entries one after the other, a later entry
  replacing an earlier one with the same key.
\<close>

definition new_Map :: "('k \<times> 'v) list \<Rightarrow> ('k \<rightharpoonup> 'v)" where
  "new_Map entries = fold (\<lambda>(k, v) m. m(k \<mapsto> v)) entries Map.empty"

text \<open>
  Lines 140 to 152. \<open>Inl\<close> is the exception \<^verbatim>\<open>handleAction\<close> throws; \<open>Inr p\<close> is the
  promise \<open>p\<close> of the handler, returned as it is.
\<close>

definition handleAction ::
  "(string \<rightharpoonup> ('e, 'r) action_handler) \<Rightarrow> HasuraAction \<Rightarrow> headers \<Rightarrow> exn + ('e + 'r)" where
  "handleAction actionHandlerMap a hdrs =
     (case actionHandlerMap (action_name (action a)) of
        None \<Rightarrow> Inl (BadRequestException (''Handler not found for action: '' @ action_name (action a)))
      | Some h \<Rightarrow> Inr (h (input a) a hdrs))"

text \<open>
  Lines 97 to 155. The first argument tells whether discovery found an instance of
  \<^verbatim>\<open>ActionHandlerService\<close> (line 104). The result is the function that line 154
  assigns to \<^verbatim>\<open>actionHandlerService.handleAction\<close>.
\<close>

definition configureHasuraActionHandlers ::
  "bool \<Rightarrow> (string, ('e, 'r) action_handler) discovered list
     \<Rightarrow> exn + (HasuraAction \<Rightarrow> headers \<Rightarrow> exn + ('e + 'r))" where
  "configureHasuraActionHandlers serviceFound actionHandlerNames =
     (if \<not> serviceFound then Inl (Error ''Could not find Hasura Event Handler Service.'')
      else Inr (handleAction (new_Map (actionHandlers_of actionHandlerNames))))"

text \<open>
  Lines 91 to 95: the event handlers are configured first, then the action handlers; an
  exception of either ends the initialisation and nothing later runs.
\<close>

definition onModuleInit ::
  "bool \<Rightarrow> bool \<Rightarrow> bool \<Rightarrow> (HasuraEventHandlerConfig, js_object \<Rightarrow> 'e + 'r) discovered list
     \<Rightarrow> (string, ('f, 's) action_handler) discovered list
     \<Rightarrow> exn + ((js_object \<Rightarrow> exn + ('e + 'r) list) \<times> (HasuraAction \<Rightarrow> headers \<Rightarrow> exn + ('f + 's)))" where
  "onModuleInit enableEventLogs eventService actionService eventHandlerMeta actionHandlerNames =
     (case configureHasuraEventHandlers enableEventLogs eventService eventHandlerMeta of
        Inl e \<Rightarrow> Inl e
      | Inr he \<Rightarrow>
          (case configureHasuraActionHandlers actionService actionHandlerNames of
             Inl e \<Rightarrow> Inl e
           | Inr ha \<Rightarrow> Inr (he, ha)))"

section \<open>The promise returned by \<^verbatim>\<open>Promise.all\<close>\<close>

text \<open>
  Line 234 hands the promises of the called handlers to the built-in
  \<^verbatim>\<open>Promise.all\<close> and returns its promise. The built-in keeps an array of values
  and a count of the elements that have not fulfilled yet. When the element with index
  \<open>i\<close> fulfils, its value is stored at \<open>i\<close> and the count goes down by one; at zero the
  promise fulfils with the array. When an element rejects, the promise rejects with that
  reason. Settling a promise that has settled already does nothing.
\<close>

datatype ('e, 'a) promise = Pending | Fulfilled 'a | Rejected 'e

record ('e, 'r) all_state =
  all_values :: "'r option list"
  all_remaining :: nat
  all_promise :: "('e, 'r option list) promise"

definition all_init :: "nat \<Rightarrow> ('e, 'r) all_state" where
  "all_init n =
     \<lparr>all_values = replicate n None, all_remaining = n,
      all_promise = (if n = 0 then Fulfilled [] else Pending)\<rparr>"

definition settle :: "('e, 'a) promise \<Rightarrow> ('e, 'a) promise \<Rightarrow> ('e, 'a) promise" where
  "settle p q = (case p of Pending \<Rightarrow> q | Fulfilled a \<Rightarrow> p | Rejected e \<Rightarrow> p)"

fun all_element :: "nat \<Rightarrow> 'e + 'r \<Rightarrow> ('e, 'r) all_state \<Rightarrow> ('e, 'r) all_state" where
  "all_element i (Inl e) st = st\<lparr>all_promise := settle (all_promise st) (Rejected e)\<rparr>"
| "all_element i (Inr v) st =
     (let vs = (all_values st)[i := Some v]; n = all_remaining st - 1 in
      \<lparr>all_values = vs, all_remaining = n,
       all_promise = (if n = 0 then settle (all_promise st) (Fulfilled vs) else all_promise st)\<rparr>)"

text \<open>
  \<open>Promise_all ps settled\<close> is the state of \<^verbatim>\<open>Promise.all(ps)\<close> at the moment when
  the elements with the indices \<open>settled\<close> have settled, in this order, and all other
  elements are still pending. The way an element settles is \<open>ps ! i\<close>.
\<close>

definition Promise_all :: "('e + 'r) list \<Rightarrow> nat list \<Rightarrow> ('e, 'r option list) promise" where
  "Promise_all ps settled =
     all_promise
       (fold (\<lambda>i st. if i < length ps then all_element i (ps ! i) st else st) settled
          (all_init (length ps)))"

text \<open>A settlement order names every element at most once, and only elements there are.\<close>

definition settlement_order :: "'a list \<Rightarrow> nat list \<Rightarrow> bool" where
  "settlement_order ps settled = (distinct settled \<and> list_all (\<lambda>i. i < length ps) settled)"


section \<open>The notions of the claims\<close>

subsection \<open>The shapes of section 4.3 of the specification\<close>

text \<open>
  Section 4.3 of the specification classifies a payload in this order: a non-empty
  \<^verbatim>\<open>id\<close>, an object-typed \<^verbatim>\<open>table\<close> and an object-typed \<^verbatim>\<open>trigger\<close> make a
  TableEvent; else \<^verbatim>\<open>id\<close>, \<^verbatim>\<open>name\<close>, \<^verbatim>\<open>scheduled_time\<close> and an
  object-typed \<^verbatim>\<open>payload\<close> make a ScheduledEvent; else the classification fails.
  These words are read as follows. A field is there, and non-empty, when its value is
  none of \<^verbatim>\<open>undefined\<close> (the field is absent), \<^verbatim>\<open>null\<close>, \<^verbatim>\<open>false\<close>, zero,
  \<^verbatim>\<open>NaN\<close> and the empty string. A field is object-typed when its value is an object,
  an array or \<^verbatim>\<open>null\<close>.
\<close>

definition spec_non_empty :: "jsval \<Rightarrow> bool" where
  "spec_non_empty v =
     (v \<notin> {JUndefined, JNull, JBool False, JNum ''0'', JNum ''NaN'', JStr ''''})"

definition spec_object_typed :: "jsval \<Rightarrow> bool" where
  "spec_object_typed v = (v = JNull \<or> (\<exists>xs. v = JArr xs) \<or> (\<exists>ps. v = JObj ps))"

definition spec_TableEvent_shape :: "js_object \<Rightarrow> bool" where
  "spec_TableEvent_shape evt =
     (spec_non_empty (get_prop evt ''id'') \<and> spec_object_typed (get_prop evt ''table'')
      \<and> spec_object_typed (get_prop evt ''trigger''))"

definition spec_ScheduledEvent_shape :: "js_object \<Rightarrow> bool" where
  "spec_ScheduledEvent_shape evt =
     (spec_non_empty (get_prop evt ''id'') \<and> spec_non_empty (get_prop evt ''name'')
      \<and> spec_non_empty (get_prop evt ''scheduled_time'')
      \<and> spec_object_typed (get_prop evt ''payload''))"

subsection \<open>The order of registration\<close>

text \<open>
  The order in which start-up registers the discovered bindings, said without the
  grouped object: the bindings of one class stand together, in the order of their
  discovery; the classes whose names are array indices come first, in ascending numeric
  order, and then the other classes in the order in which discovery first meets them.
\<close>

fun first_occurrences :: "'a list \<Rightarrow> 'a list" where
  "first_occurrences [] = []"
| "first_occurrences (x # xs) = x # filter (\<lambda>y. y \<noteq> x) (first_occurrences xs)"

definition class_order :: "string list \<Rightarrow> string list" where
  "class_order names =
     sort_key decimal (filter is_array_index (first_occurrences names))
     @ filter (\<lambda>c. \<not> is_array_index c) (first_occurrences names)"

definition registration_order :: "('m, 'h) discovered list \<Rightarrow> ('m, 'h) discovered list" where
  "registration_order ds =
     concat (map (\<lambda>c. filter (\<lambda>d. parentClass_name d = c) ds)
       (class_order (map parentClass_name ds)))"

text \<open>The bindings whose routing key is among the candidate keys of an event.\<close>

definition keyed ::
  "jsval list \<Rightarrow> (HasuraEventHandlerConfig, 'h) discovered list
     \<Rightarrow> (HasuraEventHandlerConfig, 'h) discovered list" where
  "keyed keys ds = filter (\<lambda>d. JStr (routing_key (meta d)) \<in> set keys) ds"


section \<open>Sample handlers, bindings and payloads\<close>

text \<open>Handlers whose promise fulfils with a fixed result, or rejects with a fixed reason.\<close>

definition fulfils :: "string \<Rightarrow> js_object \<Rightarrow> string + string" where
  "fulfils r evt = Inr r"

definition rejects :: "string \<Rightarrow> js_object \<Rightarrow> string + string" where
  "rejects e evt = Inl e"

subsection \<open>Payloads\<close>

text \<open>A table event of the table \<^verbatim>\<open>public.users\<close>, sent by the trigger \<^verbatim>\<open>user_created\<close>.\<close>

definition ev_user_created :: js_object where
  "ev_user_created =
     [(''id'', JStr ''e1''),
      (''table'', JObj [(''schema'', JStr ''public''), (''name'', JStr ''users'')]),
      (''trigger'', JObj [(''name'', JStr ''user_created'')])]"

text \<open>An event of the same table sent by another trigger.\<close>

definition ev_user_deleted :: js_object where
  "ev_user_deleted =
     [(''id'', JStr ''e2''),
      (''table'', JObj [(''schema'', JStr ''public''), (''name'', JStr ''users'')]),
      (''trigger'', JObj [(''name'', JStr ''user_deleted'')])]"

text \<open>An event of another table, sent by a trigger that is named like a table key.\<close>

definition ev_log_written :: js_object where
  "ev_log_written =
     [(''id'', JStr ''e4''),
      (''table'', JObj [(''schema'', JStr ''audit''), (''name'', JStr ''log'')]),
      (''trigger'', JObj [(''name'', JStr ''public-users'')])]"

text \<open>A table event that names no schema.\<close>

definition ev_no_schema :: js_object where
  "ev_no_schema =
     [(''id'', JStr ''e5''), (''table'', JObj [(''name'', JStr ''users'')]),
      (''trigger'', JObj [(''name'', JStr ''user_created'')])]"

text \<open>
  A payload with a number as \<^verbatim>\<open>id\<close>, the schema \<^verbatim>\<open>null\<close>, a number as the table's
  name and an array as \<^verbatim>\<open>trigger\<close>.
\<close>

definition ev_odd_values :: js_object where
  "ev_odd_values =
     [(''id'', JNum ''17''), (''table'', JObj [(''schema'', JNull), (''name'', JNum ''7'')]),
      (''trigger'', JArr [])]"

definition ev_null :: js_object where
  "ev_null = [(''id'', JStr ''e3''), (''table'', JNull), (''trigger'', JNull)]"

text \<open>The fields of a table event, but the \<^verbatim>\<open>id\<close> is the empty string.\<close>

definition ev_empty_id :: js_object where
  "ev_empty_id =
     [(''id'', JStr ''''),
      (''table'', JObj [(''schema'', JStr ''public''), (''name'', JStr ''users'')]),
      (''trigger'', JObj [(''name'', JStr ''user_created'')])]"

text \<open>The fields of a table event, but the \<^verbatim>\<open>table\<close> is a string.\<close>

definition ev_table_string :: js_object where
  "ev_table_string =
     [(''id'', JStr ''e6''), (''table'', JStr ''users''),
      (''trigger'', JObj [(''name'', JStr ''user_created'')])]"

definition ev_scheduled :: js_object where
  "ev_scheduled =
     [(''id'', JStr ''s1''), (''name'', JStr ''nightly''),
      (''scheduled_time'', JStr ''2020-06-10T00:00:00Z''), (''payload'', JObj [])]"

text \<open>The fields of a scheduled event, but the \<^verbatim>\<open>name\<close> is the empty string.\<close>

definition ev_unnamed_schedule :: js_object where
  "ev_unnamed_schedule =
     [(''id'', JStr ''s2''), (''name'', JStr ''''),
      (''scheduled_time'', JStr ''2020-06-10T00:00:00Z''), (''payload'', JObj [])]"

text \<open>
  A payload that has the fields of both kinds; its \<^verbatim>\<open>name\<close> differs from the name of
  its trigger.
\<close>

definition ev_both_shapes :: js_object where
  "ev_both_shapes =
     [(''id'', JStr ''e7''), (''name'', JStr ''nightly''),
      (''scheduled_time'', JStr ''2020-06-10T00:00:00Z''), (''payload'', JObj []),
      (''table'', JObj [(''schema'', JStr ''public''), (''name'', JStr ''users'')]),
      (''trigger'', JObj [(''name'', JStr ''user_created'')])]"

definition ev_unrecognized :: js_object where
  "ev_unrecognized = [(''foo'', JStr ''bar'')]"

text \<open>
  A table event whose schema is the object \<^verbatim>\<open>{"toString": 1}\<close>, and one whose
  trigger has this object as its name.
\<close>

definition ev_odd_schema :: js_object where
  "ev_odd_schema =
     [(''id'', JStr ''e8''),
      (''table'', JObj [(''schema'', JObj [(''toString'', JNum ''1'')]), (''name'', JStr ''users'')]),
      (''trigger'', JObj [(''name'', JStr ''user_created'')])]"

definition ev_odd_trigger :: js_object where
  "ev_odd_trigger =
     [(''id'', JStr ''e9''),
      (''table'', JObj [(''schema'', JStr ''public''), (''name'', JStr ''users'')]),
      (''trigger'', JObj [(''name'', JObj [(''toString'', JNum ''1'')])])]"

text \<open>
  Table events of \<^verbatim>\<open>public.users\<close> whose trigger has \<^verbatim>\<open>null\<close>, an array and an
  object without properties as its name.
\<close>

definition ev_named :: "jsval \<Rightarrow> js_object" where
  "ev_named v =
     [(''id'', JStr ''e10''),
      (''table'', JObj [(''schema'', JStr ''public''), (''name'', JStr ''users'')]),
      (''trigger'', JObj [(''name'', v)])]"

definition ev_null_name :: js_object where
  "ev_null_name = ev_named JNull"

definition ev_array_name :: js_object where
  "ev_array_name = ev_named (JArr [JNum ''1'', JArr [JNum ''2'', JNull], JBool True])"

definition ev_object_name :: js_object where
  "ev_object_name = ev_named (JObj [])"

subsection \<open>Event-handler bindings as discovery returns them\<close>

definition binding ::
  "string \<Rightarrow> string \<Rightarrow> string \<Rightarrow> HasuraEventHandlerConfig
     \<Rightarrow> (HasuraEventHandlerConfig, js_object \<Rightarrow> string + string) discovered" where
  "binding c m r config =
     \<lparr>parentClass_name = c, methodName = m, method_handler = fulfils r, meta = config\<rparr>"

definition on_trigger :: "string \<Rightarrow> HasuraEventHandlerConfig" where
  "on_trigger t = \<lparr>triggerName = Some t, table = None\<rparr>"

definition on_table :: "string \<Rightarrow> HasuraEventHandlerConfig" where
  "on_table n = \<lparr>triggerName = None, table = Some \<lparr>schema = None, name = n\<rparr>\<rparr>"

definition b_created :: "(HasuraEventHandlerConfig, js_object \<Rightarrow> string + string) discovered" where
  "b_created = binding ''UserService'' ''onUserCreated'' ''created'' (on_trigger ''user_created'')"

definition b_removed :: "(HasuraEventHandlerConfig, js_object \<Rightarrow> string + string) discovered" where
  "b_removed = binding ''UserService'' ''onUserDeleted'' ''removed'' (on_trigger ''user_deleted'')"

definition b_welcomed :: "(HasuraEventHandlerConfig, js_object \<Rightarrow> string + string) discovered" where
  "b_welcomed = binding ''UserService'' ''sendWelcome'' ''welcomed'' (on_trigger ''user_created'')"

definition b_audit :: "(HasuraEventHandlerConfig, js_object \<Rightarrow> string + string) discovered" where
  "b_audit = binding ''AuditService'' ''onUserCreated'' ''audited'' (on_trigger ''user_created'')"

definition b_users :: "(HasuraEventHandlerConfig, js_object \<Rightarrow> string + string) discovered" where
  "b_users = binding ''AuditService'' ''onUsersChanged'' ''listed'' (on_table ''users'')"

definition b_shadow :: "(HasuraEventHandlerConfig, js_object \<Rightarrow> string + string) discovered" where
  "b_shadow = binding ''ReportService'' ''onReport'' ''reported'' (on_trigger ''public-users'')"

definition b_invalid :: "(HasuraEventHandlerConfig, js_object \<Rightarrow> string + string) discovered" where
  "b_invalid = binding ''UserService'' ''onNothing'' ''nothing'' \<lparr>triggerName = None, table = None\<rparr>"

definition b_both :: "(HasuraEventHandlerConfig, js_object \<Rightarrow> string + string) discovered" where
  "b_both =
     binding ''AuditService'' ''onUserCreated'' ''audited''
       \<lparr>triggerName = Some ''user_created'',
        table = Some \<lparr>schema = Some ''public'', name = ''users''\<rparr>\<rparr>"

text \<open>Bindings of providers that are named \<^verbatim>\<open>10\<close> and \<^verbatim>\<open>9\<close>.\<close>

definition b_ten :: "(HasuraEventHandlerConfig, js_object \<Rightarrow> string + string) discovered" where
  "b_ten = binding ''10'' ''onUserCreated'' ''ten'' (on_trigger ''user_created'')"

definition b_nine :: "(HasuraEventHandlerConfig, js_object \<Rightarrow> string + string) discovered" where
  "b_nine = binding ''9'' ''onUsersChanged'' ''nine'' (on_table ''users'')"

subsection \<open>Action handlers and actions\<close>

text \<open>
  Action handlers that fulfil with a tag and the three arguments they were called with
  (of the action, its name).
\<close>

definition echo :: "string \<Rightarrow> (string, string \<times> jsval \<times> string \<times> headers) action_handler" where
  "echo tag inp a hdrs = Inr (tag, inp, action_name (action a), hdrs)"

definition action_binding ::
  "string \<Rightarrow> string \<Rightarrow> string
     \<Rightarrow> (string, (string, string \<times> jsval \<times> string \<times> headers) action_handler) discovered" where
  "action_binding c m n =
     \<lparr>parentClass_name = c, methodName = m, method_handler = echo (c @ ''.'' @ m), meta = n\<rparr>"

definition a_create :: "(string, (string, string \<times> jsval \<times> string \<times> headers) action_handler) discovered" where
  "a_create = action_binding ''UserActions'' ''createUser'' ''create_user''"

definition a_delete :: "(string, (string, string \<times> jsval \<times> string \<times> headers) action_handler) discovered" where
  "a_delete = action_binding ''UserActions'' ''deleteUser'' ''delete_user''"

definition a_invite :: "(string, (string, string \<times> jsval \<times> string \<times> headers) action_handler) discovered" where
  "a_invite = action_binding ''UserActions'' ''inviteUser'' ''create_user''"

definition a_create_legacy :: "(string, (string, string \<times> jsval \<times> string \<times> headers) action_handler) discovered" where
  "a_create_legacy = action_binding ''LegacyActions'' ''create'' ''create_user''"

definition a_ten :: "(string, (string, string \<times> jsval \<times> string \<times> headers) action_handler) discovered" where
  "a_ten = action_binding ''10'' ''create'' ''create_user''"

definition a_nine :: "(string, (string, string \<times> jsval \<times> string \<times> headers) action_handler) discovered" where
  "a_nine = action_binding ''9'' ''create'' ''create_user''"

text \<open>
  Handlers of providers whose names are numerals but no array indices: one with a
  leading zero, one beyond the largest array index.
\<close>

definition a_seven :: "(string, (string, string \<times> jsval \<times> string \<times> headers) action_handler) discovered" where
  "a_seven = action_binding ''07'' ''create'' ''create_user''"

definition a_big :: "(string, (string, string \<times> jsval \<times> string \<times> headers) action_handler) discovered" where
  "a_big = action_binding ''4294967295'' ''create'' ''create_user''"

text \<open>A handler of the provider named by the largest array index.\<close>

definition a_most :: "(string, (string, string \<times> jsval \<times> string \<times> headers) action_handler) discovered" where
  "a_most = action_binding ''4294967294'' ''create'' ''create_user''"

definition act_create_user :: HasuraAction where
  "act_create_user =
     \<lparr>action = \<lparr>action_name = ''create_user''\<rparr>, input = JObj [(''email'', JStr ''a@b.c'')],
      session_variables = []\<rparr>"



section \<open>Auxiliary facts\<close>

subsection \<open>Grouping and the order of registration\<close>

lemma set_first_occurrences [simp]: "set (first_occurrences xs) = set xs"
  by (induction xs) auto

lemma distinct_first_occurrences [simp]: "distinct (first_occurrences xs)"
  by (induction xs) auto

lemma first_occurrences_snoc:
  "first_occurrences (xs @ [y]) =
     (if y \<in> set xs then first_occurrences xs else first_occurrences xs @ [y])"
  by (induction xs) auto

lemma group_add_map:
  assumes "distinct cs"
  shows "group_add f d (map (\<lambda>c. (c, g c)) cs) =
     (if f d \<in> set cs then map (\<lambda>c. (c, if c = f d then g c @ [d] else g c)) cs
      else map (\<lambda>c. (c, g c)) cs @ [(f d, [d])])"
  using assms by (induction cs) auto

lemma groupBy_snoc: "groupBy (ds @ [d]) f = group_add f d (groupBy ds f)"
  by (simp add: groupBy_def)

lemma groupBy_filter:
  "groupBy ds f = map (\<lambda>c. (c, filter (\<lambda>d. f d = c) ds)) (first_occurrences (map f ds))"
proof (induction ds rule: rev_induct)
  case Nil
  show ?case by (simp add: groupBy_def)
next
  case (snoc d ds)
  let ?cs = "first_occurrences (map f ds)"
  have "groupBy (ds @ [d]) f = group_add f d (map (\<lambda>c. (c, filter (\<lambda>d. f d = c) ds)) ?cs)"
    by (simp only: groupBy_snoc snoc.IH)
  also have "\<dots> =
     (if f d \<in> set ?cs then map (\<lambda>c. (c, if c = f d then filter (\<lambda>d. f d = c) ds @ [d] else filter (\<lambda>d. f d = c) ds)) ?cs
      else map (\<lambda>c. (c, filter (\<lambda>d. f d = c) ds)) ?cs @ [(f d, [d])])"
    by (rule group_add_map) simp
  also have "\<dots> = map (\<lambda>c. (c, filter (\<lambda>x. f x = c) (ds @ [d]))) (first_occurrences (map f (ds @ [d])))"
  proof (cases "f d \<in> f ` set ds")
    case True
    then show ?thesis
      by (auto simp add: first_occurrences_snoc)
  next
    case False
    then have "filter (\<lambda>x. f x = f d) ds = []"
      by (metis (mono_tags, lifting) filter_False imageI)
    with False show ?thesis
      by (auto simp add: first_occurrences_snoc)
  qed
  finally show ?case .
qed

lemma insort_key_map:
  "insort_key k (h x) (map h xs) = map h (insort_key (\<lambda>y. k (h y)) x xs)"
  by (induction xs) simp_all

lemma sort_key_map: "sort_key k (map h xs) = map h (sort_key (\<lambda>y. k (h y)) xs)"
  by (induction xs) (simp_all add: insort_key_map)

lemma own_properties_groupBy:
  "own_properties (groupBy ds f) =
     map (\<lambda>c. (c, filter (\<lambda>d. f d = c) ds)) (class_order (map f ds))"
  by (simp add: groupBy_filter own_properties_def class_order_def filter_map comp_def sort_key_map)

lemma registration_order_groupBy:
  "concat (map snd (own_properties (groupBy ds parentClass_name))) = registration_order ds"
  by (simp add: own_properties_groupBy registration_order_def comp_def)

lemma set_registration_order [simp]: "set (registration_order ds) = set ds"
  by (auto simp add: registration_order_def class_order_def)

subsection \<open>The event handler list\<close>

lemma map_throw_Inl: "map_throw f xs = Inl e \<Longrightarrow> \<exists>x \<in> set xs. f x = Inl e"
  by (induction xs) (auto split: sum.splits)

lemma map_throw_throws: "x \<in> set xs \<Longrightarrow> f x = Inl e \<Longrightarrow> \<exists>e'. map_throw f xs = Inl e'"
  by (induction xs) (auto split: sum.splits)

lemma map_throw_map: "map_throw f xs = Inr ys \<Longrightarrow> map f xs = map Inr ys"
  by (induction xs arbitrary: ys) (auto split: sum.splits)

lemma register_event_Inl:
  "register_event d = Inl e \<Longrightarrow>
     e = Error ''Hasura Event Handler is invalid. Specify either trigger name or table mapping''"
  by (simp add: register_event_def Let_def split: if_splits)

lemma register_event_Inr: "register_event d = Inr y \<Longrightarrow> y = event_entry_of d"
  by (auto simp add: register_event_def Let_def split: if_splits)

lemma eventHandlers_of_Inl:
  assumes "eventHandlers_of ds = Inl e"
  shows "e = Error ''Hasura Event Handler is invalid. Specify either trigger name or table mapping''"
proof -
  let ?g = "own_properties (groupBy ds parentClass_name)"
  from assms have "map_throw (\<lambda>(x, bindings). map_throw register_event bindings) ?g = Inl e"
    by (simp add: eventHandlers_of_def Let_def split: sum.splits)
  then have "\<exists>g \<in> set ?g. (case g of (x, bindings) \<Rightarrow> map_throw register_event bindings) = Inl e"
    by (rule map_throw_Inl)
  then obtain g where "g \<in> set ?g" and "map_throw register_event (snd g) = Inl e"
    by fastforce
  then have "\<exists>d \<in> set (snd g). register_event d = Inl e"
    by (simp add: map_throw_Inl)
  then obtain d where "d \<in> set (snd g)" and "register_event d = Inl e"
    by blast
  then show ?thesis by (simp add: register_event_Inl)
qed

lemma eventHandlers_of_throws:
  assumes "d \<in> set ds" and "register_event d = Inl e"
  shows "\<exists>e'. eventHandlers_of ds = Inl e'"
proof -
  let ?g = "own_properties (groupBy ds parentClass_name)"
  from assms(1) have "d \<in> set (concat (map snd ?g))"
    by (simp only: registration_order_groupBy set_registration_order)
  then obtain g where g: "g \<in> set ?g" "d \<in> set (snd g)"
    by auto
  from g(2) assms(2) obtain e1 where "map_throw register_event (snd g) = Inl e1"
    by (blast dest: map_throw_throws)
  then have "(\<lambda>(x, bindings). map_throw register_event bindings) g = Inl e1"
    by (simp add: case_prod_beta)
  with g(1) obtain e2 where
    "map_throw (\<lambda>(x, bindings). map_throw register_event bindings) ?g = Inl e2"
    by (blast dest: map_throw_throws)
  then show ?thesis by (simp add: eventHandlers_of_def Let_def)
qed

lemma concat_map_throw:
  "map_throw (\<lambda>(x, bindings). map_throw f bindings) g = Inr yss \<Longrightarrow>
     map f (concat (map snd g)) = map Inr (concat yss)"
  by (induction g arbitrary: yss) (auto split: sum.splits dest: map_throw_map)

lemma eventHandlers_of_Inr:
  assumes "eventHandlers_of ds = Inr hs"
  shows "hs = map event_entry_of (registration_order ds)"
proof -
  let ?g = "own_properties (groupBy ds parentClass_name)"
  from assms obtain yss where
    yss: "map_throw (\<lambda>(x, bindings). map_throw register_event bindings) ?g = Inr yss" "hs = concat yss"
    by (auto simp add: eventHandlers_of_def Let_def split: sum.splits)
  then have "map register_event (concat (map snd ?g)) = map Inr hs"
    by (simp add: concat_map_throw)
  then have m: "map register_event (registration_order ds) = map Inr hs"
    by (simp only: registration_order_groupBy)
  then have l: "length (registration_order ds) = length hs"
    by (metis length_map)
  have "\<forall>i < length hs. hs ! i = event_entry_of (registration_order ds ! i)"
  proof (intro allI impI)
    fix i assume "i < length hs"
    with m l have "register_event (registration_order ds ! i) = Inr (hs ! i)"
      by (metis nth_map)
    then show "hs ! i = event_entry_of (registration_order ds ! i)"
      by (rule register_event_Inr)
  qed
  with l show ?thesis
    by (intro nth_equalityI) simp_all
qed

lemma eventHandlers_of_member:
  assumes "eventHandlers_of ds = Inr hs" and "d \<in> set ds"
  shows "event_entry_of d \<in> set hs"
  using assms(2) by (simp add: eventHandlers_of_Inr [OF assms(1)])

subsection \<open>The shape checks\<close>

lemma truthy_non_empty: "truthy v = spec_non_empty v"
  by (cases v) (auto simp add: spec_non_empty_def)

lemma typeof_object_typed: "(typeof v = ''object'') = spec_object_typed v"
  by (cases v) (auto simp add: spec_object_typed_def)

lemma truthy_js_and: "truthy (js_and a b) = (truthy a \<and> truthy b)"
  by (simp add: js_and_def)

lemma truthy_isHasuraEvent:
  "truthy (isHasuraEvent evt) =
     (truthy (get_prop evt ''id'') \<and> typeof (get_prop evt ''table'') = ''object''
        \<and> typeof (get_prop evt ''trigger'') = ''object'')"
  by (simp add: isHasuraEvent_def truthy_js_and)

lemma truthy_isHasuraScheduledEventPayload:
  "truthy (isHasuraScheduledEventPayload evt) =
     (truthy (get_prop evt ''id'') \<and> truthy (get_prop evt ''name'')
        \<and> truthy (get_prop evt ''scheduled_time'') \<and> typeof (get_prop evt ''payload'') = ''object'')"
  by (simp add: isHasuraScheduledEventPayload_def truthy_js_and)

lemma isHasuraEvent_shape: "truthy (isHasuraEvent evt) = spec_TableEvent_shape evt"
  unfolding truthy_isHasuraEvent spec_TableEvent_shape_def
  by (simp only: truthy_non_empty typeof_object_typed)

lemma isHasuraScheduledEventPayload_shape:
  "truthy (isHasuraScheduledEventPayload evt) = spec_ScheduledEvent_shape evt"
  unfolding truthy_isHasuraScheduledEventPayload spec_ScheduledEvent_shape_def
  by (simp only: truthy_non_empty typeof_object_typed)

subsection \<open>Conversion to strings\<close>

lemma first_throw_Inl: "first_throw rs = Inl e \<Longrightarrow> Inl e \<in> set rs"
  by (induction rs rule: first_throw.induct) (auto split: sum.splits)

lemma ToString_Inl: "ToString v = Inl e \<Longrightarrow> e = TypeError"
proof (induction v)
  case (JArr xs)
  from JArr.prems have "first_throw (map (\<lambda>v. if v = JUndefined \<or> v = JNull then Inr [] else ToString v) xs) = Inl e"
    by (simp split: sum.splits)
  then have "Inl e \<in> set (map (\<lambda>v. if v = JUndefined \<or> v = JNull then Inr [] else ToString v) xs)"
    by (rule first_throw_Inl)
  then obtain x where "x \<in> set xs" and "ToString x = Inl e"
    by (auto split: if_splits)
  then show ?case by (rule JArr.IH)
next
  case (JObj ps)
  then show ?case by (simp split: option.splits)
qed simp_all

subsection \<open>The dispatch\<close>

lemma event_keys_Inl: "event_keys evt = Inl e \<Longrightarrow> e = TypeError"
  by (auto simp add: event_keys_def split: if_splits sum.splits dest: ToString_Inl)

lemma event_keys_None:
  "(event_keys evt = Inr None) = (\<not> spec_TableEvent_shape evt \<and> \<not> spec_ScheduledEvent_shape evt)"
  by (simp add: event_keys_def isHasuraEvent_shape isHasuraScheduledEventPayload_shape
      split: sum.splits)

lemma handleEvent_unrecognised:
  "event_keys evt = Inr None \<Longrightarrow>
     handleEvent enableEventLogs eventHandlers evt = Inl (Error ''Not a Hasura Event'')"
  by (simp add: handleEvent_def)

lemma handleEvent_recognised:
  assumes "event_keys evt \<noteq> Inr None"
  shows "handleEvent enableEventLogs eventHandlers evt \<noteq> Inl (Error ''Not a Hasura Event'')"
proof (cases "event_keys evt")
  case (Inl e)
  then have "e = TypeError" by (rule event_keys_Inl)
  with Inl show ?thesis by (simp add: handleEvent_def)
next
  case (Inr k)
  with assms obtain keys where keys: "event_keys evt = Inr (Some keys)"
    by (cases k) simp_all
  show ?thesis
  proof (cases "ToString (JArr keys)")
    case (Inl e)
    then have "e = TypeError" by (rule ToString_Inl)
    with Inl keys show ?thesis
      by (simp add: handleEvent_def Let_def)
  next
    case (Inr s)
    with keys show ?thesis
      by (simp add: handleEvent_def Let_def)
  qed
qed

lemma matching_empty:
  "(matching eventHandlers keys = []) = (\<forall>x \<in> set eventHandlers. JStr (key x) \<notin> set keys)"
  by (simp add: matching_def filter_empty_conv)

lemma matching_append: "matching (xs @ ys) keys = matching xs keys @ matching ys keys"
  by (simp add: matching_def)

lemma matching_map_entry:
  "matching (map event_entry_of ds) keys = map event_entry_of (keyed keys ds)"
  by (simp add: matching_def keyed_def filter_map comp_def event_entry_of_def)

lemma keyed_append: "keyed keys (xs @ ys) = keyed keys xs @ keyed keys ys"
  by (simp add: keyed_def)

lemma keyed_Cons:
  "keyed keys (d # ds) =
     (if JStr (routing_key (meta d)) \<in> set keys then d # keyed keys ds else keyed keys ds)"
  by (simp add: keyed_def)

lemma handler_entry: "handler (event_entry_of d) = method_handler d"
  by (simp add: event_entry_of_def)

lemma key_entry: "key (event_entry_of d) = routing_key (meta d)"
  by (simp add: event_entry_of_def)

lemma handleEvent_calls:
  assumes "event_keys evt = Inr (Some keys)"
    and "enableEventLogs \<longrightarrow> (\<exists>s. ToString (JArr keys) = Inr s)"
    and "matching eventHandlers keys \<noteq> []"
  shows "handleEvent enableEventLogs eventHandlers evt =
           Inr (map (\<lambda>x. handler x evt) (matching eventHandlers keys))"
  using assms by (auto simp add: handleEvent_def Let_def)

lemma handleEvent_no_match:
  assumes "event_keys evt = Inr (Some keys)"
    and "matching eventHandlers keys = []"
  shows "handleEvent enableEventLogs eventHandlers evt =
           (case ToString (JArr keys) of
              Inl e \<Rightarrow> Inl e
            | Inr s \<Rightarrow> Inl (BadRequestException (''Handler not found for '' @ s)))"
  using assms by (auto simp add: handleEvent_def Let_def split: sum.splits)

lemma invokes_iff:
  assumes "event_keys evt = Inr (Some keys)"
    and "enableEventLogs \<longrightarrow> (\<exists>s. ToString (JArr keys) = Inr s)"
  shows "invokes enableEventLogs eventHandlers evt x = (x \<in> set (matching eventHandlers keys))"
proof (cases "matching eventHandlers keys = []")
  case True
  with assms(1) show ?thesis
    by (simp add: invokes_def handleEvent_no_match split: sum.splits)
next
  case False
  with assms show ?thesis
    by (simp add: invokes_def handleEvent_calls)
qed

subsection \<open>The steps of Promise.all\<close>

lemma settled_stays_element:
  "all_promise st \<noteq> Pending \<Longrightarrow> all_promise (all_element i out st) = all_promise st"
  by (cases out; cases "all_promise st") (simp_all add: settle_def Let_def)

lemma settled_stays:
  "all_promise st \<noteq> Pending \<Longrightarrow>
     all_promise (fold (\<lambda>i st. if i < length ps then all_element i (ps ! i) st else st) xs st) = all_promise st"
  by (induction xs arbitrary: st) (simp_all add: settled_stays_element)

lemma length_settlement_order:
  assumes "distinct xs" and "\<forall>i \<in> set xs. i < n"
  shows "length xs \<le> n"
proof -
  from assms(2) have "set xs \<subseteq> {..<n}" by auto
  then have "card (set xs) \<le> card {..<n}" by (intro card_mono) simp_all
  with assms(1) show ?thesis by (simp add: distinct_card)
qed

lemma fulfilled_prefix:
  assumes "distinct xs" and "\<forall>i \<in> set xs. i < length ps \<and> (\<exists>v. ps ! i = Inr v)"
  shows "fold (\<lambda>i st. if i < length ps then all_element i (ps ! i) st else st) xs (all_init (length ps)) =
     \<lparr>all_values = map (\<lambda>j. if j \<in> set xs then Some (projr (ps ! j)) else None) [0..<length ps],
      all_remaining = length ps - length xs,
      all_promise =
        (if length xs = length ps
         then Fulfilled (map (\<lambda>j. if j \<in> set xs then Some (projr (ps ! j)) else None) [0..<length ps])
         else Pending)\<rparr>"
  using assms
proof (induction xs rule: rev_induct)
  case Nil
  show ?case
    by (auto simp add: all_init_def map_replicate_const)
next
  case (snoc i xs)
  let ?n = "length ps"
  let ?f = "\<lambda>i st. if i < length ps then all_element i (ps ! i) st else st"
  let ?vals = "\<lambda>xs. map (\<lambda>j. if j \<in> set xs then Some (projr (ps ! j)) else None) [0..<?n]"
  from snoc.prems have d: "distinct xs" "i \<notin> set xs" and i: "i < ?n"
    and r: "\<forall>j \<in> set xs. j < ?n \<and> (\<exists>v. ps ! j = Inr v)" by auto
  from snoc.prems obtain v where v: "ps ! i = Inr v" by auto
  have "length (xs @ [i]) \<le> ?n"
    using snoc.prems by (intro length_settlement_order) auto
  then have lt: "length xs < ?n" by simp
  have st: "fold ?f xs (all_init ?n) =
      \<lparr>all_values = ?vals xs, all_remaining = ?n - length xs, all_promise = Pending\<rparr>"
    using snoc.IH [OF d(1) r] lt by simp
  have vals: "(?vals xs)[i := Some v] = ?vals (xs @ [i])"
    using i v by (intro nth_equalityI) (auto simp add: nth_list_update)
  have "fold ?f (xs @ [i]) (all_init ?n) = all_element i (Inr v) (fold ?f xs (all_init ?n))"
    using i v by simp
  also have "\<dots> = \<lparr>all_values = (?vals xs)[i := Some v], all_remaining = ?n - length xs - 1,
      all_promise = (if ?n - length xs - 1 = 0 then Fulfilled ((?vals xs)[i := Some v]) else Pending)\<rparr>"
    by (simp only: st all_element.simps Let_def settle_def all_state.simps promise.case)
  also have "\<dots> = \<lparr>all_values = ?vals (xs @ [i]), all_remaining = ?n - length (xs @ [i]),
      all_promise = (if length (xs @ [i]) = ?n then Fulfilled (?vals (xs @ [i])) else Pending)\<rparr>"
    using lt by (simp only: vals) auto
  finally show ?case .
qed

lemma Promise_all_pending:
  assumes "distinct xs" and "\<forall>i \<in> set xs. i < length ps \<and> (\<exists>v. ps ! i = Inr v)"
    and "length xs < length ps"
  shows "Promise_all ps xs = Pending"
  using fulfilled_prefix [OF assms(1,2)] assms(3) by (simp add: Promise_all_def)

lemma Promise_all_fulfilled:
  fixes rs :: "'r list"
  assumes "distinct xs" and "set xs = {..<length rs}"
  shows "(Promise_all (map Inr rs) xs :: ('e, 'r option list) promise) = Fulfilled (map Some rs)"
proof -
  let ?ps = "map Inr rs :: ('e + 'r) list"
  let ?f = "\<lambda>i st. if i < length ?ps then all_element i (?ps ! i) st else st"
  have r: "\<forall>i \<in> set xs. i < length ?ps \<and> (\<exists>v. ?ps ! i = Inr v)"
    using assms(2) by auto
  have len: "length xs = length ?ps"
    using assms by (metis card_lessThan distinct_card length_map)
  have vals: "map (\<lambda>j. if j \<in> set xs then Some (projr (?ps ! j)) else None) [0..<length ?ps] = map Some rs"
    using assms(2) by (intro nth_equalityI) auto
  have "all_promise (fold ?f xs (all_init (length ?ps))) =
      Fulfilled (map (\<lambda>j. if j \<in> set xs then Some (projr (?ps ! j)) else None) [0..<length ?ps])"
    by (simp only: fulfilled_prefix [OF assms(1) r] len all_state.simps refl if_True)
  then show ?thesis
    by (simp only: Promise_all_def vals)
qed

lemma Promise_all_rejected:
  assumes "distinct (pre @ [i])" and "\<forall>j \<in> set pre. j < length ps \<and> (\<exists>v. ps ! j = Inr v)"
    and "i < length ps" and "ps ! i = Inl e"
  shows "Promise_all ps (pre @ i # post) = Rejected e"
proof -
  let ?f = "\<lambda>i st. if i < length ps then all_element i (ps ! i) st else st"
  from assms(1) have d: "distinct pre" "i \<notin> set pre" by auto
  have "length (pre @ [i]) \<le> length ps"
    using assms by (intro length_settlement_order) auto
  then have "length pre < length ps" by simp
  then have "all_promise (fold ?f pre (all_init (length ps))) = Pending"
    using fulfilled_prefix [OF d(1) assms(2)] by simp
  then have "all_promise (fold ?f (pre @ [i]) (all_init (length ps))) = Rejected e"
    using assms(3,4) by (simp add: settle_def)
  then have "all_promise (fold ?f post (fold ?f (pre @ [i]) (all_init (length ps)))) = Rejected e"
    by (simp add: settled_stays)
  then show ?thesis
    by (simp add: Promise_all_def)
qed

lemma settlement_order_prefix:
  assumes "settlement_order ps (pre @ i # post)"
  shows "distinct (pre @ [i])" and "\<forall>j \<in> set pre. j < length ps" and "i < length ps"
  using assms by (auto simp add: settlement_order_def list_all_iff)

subsection \<open>The action handler table\<close>

lemma fold_map_set:
  "fold (\<lambda>(k, v) m. m(k \<mapsto> v)) xs m = m ++ map_of (rev xs)"
proof (induction xs arbitrary: m)
  case Nil
  show ?case by simp
next
  case (Cons x xs)
  obtain a b where x: "x = (a, b)" by (cases x)
  have "fold (\<lambda>(k, v) m. m(k \<mapsto> v)) (x # xs) m = fold (\<lambda>(k, v) m. m(k \<mapsto> v)) xs (m(a \<mapsto> b))"
    using x by simp
  also have "\<dots> = m(a \<mapsto> b) ++ map_of (rev xs)"
    by (rule Cons.IH)
  also have "\<dots> = m ++ (map_of [(a, b)] ++ map_of (rev xs))"
    by (rule ext) (simp add: map_add_def split: option.splits)
  also have "\<dots> = m ++ map_of (rev (x # xs))"
    using x by (simp add: map_of_append)
  finally show ?case .
qed

lemma new_Map_map_of: "new_Map xs = map_of (rev xs)"
  by (simp add: new_Map_def fold_map_set)



lemma new_Map_last:
  "k \<notin> fst ` set after \<Longrightarrow> new_Map (before @ (k, v) # after) k = Some v"
  by (simp add: new_Map_map_of map_of_append map_add_def map_of_eq_None_iff [THEN iffD2] split: option.splits)

lemma actionHandlers_of_registration:
  "actionHandlers_of ds = map (\<lambda>d. (meta d, method_handler d)) (registration_order ds)"
proof -
  have "actionHandlers_of ds =
      map (\<lambda>d. (meta d, method_handler d))
        (concat (map snd (own_properties (groupBy ds parentClass_name))))"
    by (simp add: actionHandlers_of_def Let_def map_concat case_prod_unfold comp_def)
  then show ?thesis
    by (simp only: registration_order_groupBy)
qed




subsection \<open>Unfolding the build and the classification on samples\<close>

lemmas sample_bindings =
  binding_def on_trigger_def on_table_def b_created_def b_removed_def b_welcomed_def
  b_audit_def b_users_def b_shadow_def b_invalid_def b_both_def b_ten_def b_nine_def

lemmas sample_actions =
  action_binding_def a_create_def a_delete_def a_invite_def a_create_legacy_def a_ten_def a_nine_def
  a_seven_def a_big_def a_most_def

lemmas eval_order = groupBy_def own_properties_def is_digit_def digit_value_def decimal_def
lemmas eval_build = eventHandlers_of_def eval_order register_event_def event_entry_of_def routing_key_def
lemmas eval_keys = event_keys_def truthy_isHasuraEvent truthy_isHasuraScheduledEventPayload get_prop_def
lemmas eval_shape = spec_TableEvent_shape_def spec_ScheduledEvent_shape_def spec_non_empty_def
  spec_object_typed_def get_prop_def


section \<open>The claims\<close>

subsection \<open>C1\<close>

text \<open>
  C1. The claim is that a binding with both \<^verbatim>\<open>table\<close> and \<^verbatim>\<open>triggerName\<close> gets
  two routing keys. Lines 200 to 204 compute one key, \<^verbatim>\<open>config.triggerName || ...\<close>,
  and the entry of lines 206 to 213 holds this one key: the binding of
  \<^verbatim>\<open>user_created\<close> and \<^verbatim>\<open>public.users\<close> is registered under \<^verbatim>\<open>user_created\<close>
  only, and an event of \<^verbatim>\<open>public.users\<close> sent by another trigger does not reach it,
  with event logging off and with event logging on.
\<close>

theorem dual_binding_registers_trigger_key_only:
  "eventHandlers_of [b_both] = Inr [\<lparr>key = ''user_created'', handler = fulfils ''audited''\<rparr>]
   \<and> event_keys ev_user_deleted = Inr (Some [JStr ''user_deleted'', JStr ''public-users''])
   \<and> \<not> invokes False [\<lparr>key = ''user_created'', handler = fulfils ''audited''\<rparr>] ev_user_deleted
         \<lparr>key = ''user_created'', handler = fulfils ''audited''\<rparr>
   \<and> \<not> invokes True [\<lparr>key = ''user_created'', handler = fulfils ''audited''\<rparr>] ev_user_deleted
         \<lparr>key = ''user_created'', handler = fulfils ''audited''\<rparr>
   \<and> handleEvent False [\<lparr>key = ''user_created'', handler = fulfils ''audited''\<rparr>] ev_user_deleted
       = Inl (BadRequestException ''Handler not found for user_deleted,public-users'')
   \<and> handleEvent True [\<lparr>key = ''user_created'', handler = fulfils ''audited''\<rparr>] ev_user_deleted
       = Inl (BadRequestException ''Handler not found for user_deleted,public-users'')"
proof -
  have "eventHandlers_of [b_both] = Inr [\<lparr>key = ''user_created'', handler = fulfils ''audited''\<rparr>]"
    by (simp add: eval_build sample_bindings)
  moreover have k: "event_keys ev_user_deleted = Inr (Some [JStr ''user_deleted'', JStr ''public-users''])"
    by (simp add: eval_keys ev_user_deleted_def)
  ultimately show ?thesis
    by (simp add: invokes_def handleEvent_def matching_def)
qed

subsection \<open>C2\<close>

text \<open>
  C2, as the code has it. Of the promises of the handlers a dispatch has called, let one
  reject with \<open>e\<close> when only fulfilments came before it. The promise of the dispatch is
  pending until then, it rejects with \<open>e\<close> at that moment, whichever handlers are still
  running, and it stays rejected with \<open>e\<close> however they settle later.
\<close>

theorem first_rejection_fails_dispatch:
  assumes "handleEvent enableEventLogs eventHandlers evt = Inr ps"
    and "settlement_order ps (pre @ i # post)"
    and "\<forall>j \<in> set pre. \<exists>v. ps ! j = Inr v"
    and "ps ! i = Inl e"
  shows "Promise_all ps pre = Pending
       \<and> Promise_all ps (pre @ [i]) = Rejected e
       \<and> Promise_all ps (pre @ i # post) = Rejected e"
proof -
  note o = settlement_order_prefix [OF assms(2)]
  from o(2) assms(3) have f: "\<forall>j \<in> set pre. j < length ps \<and> (\<exists>v. ps ! j = Inr v)"
    by blast
  from o(1) have d: "distinct pre" by simp
  have "length (pre @ [i]) \<le> length ps"
    using o by (intro length_settlement_order) auto
  then have "length pre < length ps" by simp
  with d f have "Promise_all ps pre = Pending"
    by (rule Promise_all_pending)
  moreover have "Promise_all ps (pre @ i # []) = Rejected e"
    using o(1) f o(3) assms(4) by (rule Promise_all_rejected)
  moreover have "Promise_all ps (pre @ i # post) = Rejected e"
    using o(1) f o(3) assms(4) by (rule Promise_all_rejected)
  ultimately show ?thesis by simp
qed

theorem first_rejection_fails_dispatch_witness:
  "handleEvent False [\<lparr>key = ''user_created'', handler = fulfils ''created''\<rparr>,
                      \<lparr>key = ''public-users'', handler = rejects ''boom''\<rparr>,
                      \<lparr>key = ''user_created'', handler = fulfils ''audited''\<rparr>] ev_user_created
     = Inr [Inr ''created'', Inl ''boom'', Inr ''audited'']
   \<and> Promise_all [Inr ''created'', Inl ''boom'', Inr ''audited'' :: string + string] [2] = Pending
   \<and> Promise_all [Inr ''created'', Inl ''boom'', Inr ''audited'' :: string + string] [2, 1] = Rejected ''boom''
   \<and> Promise_all [Inr ''created'', Inl ''boom'', Inr ''audited'' :: string + string] [2, 1, 0] = Rejected ''boom''"
proof -
  let ?hs = "[\<lparr>key = ''user_created'', handler = fulfils ''created''\<rparr>,
              \<lparr>key = ''public-users'', handler = rejects ''boom''\<rparr>,
              \<lparr>key = ''user_created'', handler = fulfils ''audited''\<rparr>]"
  let ?ps = "[Inr ''created'', Inl ''boom'', Inr ''audited''] :: (string + string) list"
  have h: "handleEvent False ?hs ev_user_created = Inr ?ps"
    by (simp add: handleEvent_def eval_keys matching_def ev_user_created_def rejects_def fulfils_def)
  have o: "settlement_order ?ps ([2] @ 1 # [0])"
    by (simp add: settlement_order_def)
  have f: "\<forall>j \<in> set [2]. \<exists>v. ?ps ! j = Inr v"
    by simp
  have r: "?ps ! 1 = Inl ''boom''"
    by simp
  from first_rejection_fails_dispatch [OF h o f r] h show ?thesis by simp
qed

text \<open>
  C2, as it is stated, fails: of two matching handlers the first rejects, and at the
  moment when it alone has settled, the second still running, the promise of the
  dispatch is rejected already. Event logging makes no difference.
\<close>

theorem rejection_surfaces_before_siblings_settle:
  "handleEvent False [\<lparr>key = ''user_created'', handler = rejects ''boom''\<rparr>,
                      \<lparr>key = ''user_created'', handler = fulfils ''created''\<rparr>] ev_user_created
     = Inr [Inl ''boom'', Inr ''created'']
   \<and> handleEvent True [\<lparr>key = ''user_created'', handler = rejects ''boom''\<rparr>,
                       \<lparr>key = ''user_created'', handler = fulfils ''created''\<rparr>] ev_user_created
     = Inr [Inl ''boom'', Inr ''created'']
   \<and> settlement_order [Inl ''boom'', Inr ''created'' :: string + string] [0]
   \<and> Promise_all [Inl ''boom'', Inr ''created'' :: string + string] [0] = Rejected ''boom''"
  by (simp add: handleEvent_def eval_keys matching_def
      ev_user_created_def rejects_def fulfils_def settlement_order_def
      Promise_all_def all_init_def settle_def)

subsection \<open>C3\<close>

text \<open>
  C3, as the code has it. A payload with a non-empty \<^verbatim>\<open>id\<close>, an object-typed
  \<^verbatim>\<open>table\<close> and an object-typed \<^verbatim>\<open>trigger\<close> gets the candidate keys of a
  TableEvent, \<^verbatim>\<open>trigger.name\<close> and the string of \<^verbatim>\<open>table.schema\<close>, a hyphen and
  \<^verbatim>\<open>table.name\<close> (the schema is not defaulted), whenever these two convert to
  strings. Otherwise a payload with \<^verbatim>\<open>id\<close>, \<^verbatim>\<open>name\<close>, \<^verbatim>\<open>scheduled_time\<close>
  and an object-typed \<^verbatim>\<open>payload\<close> gets the candidate key of a ScheduledEvent, its
  \<^verbatim>\<open>name\<close>. Otherwise, and only then, \<^verbatim>\<open>handleEvent\<close> throws the error
  "Not a Hasura Event".
\<close>

theorem classification_priority:
  "(spec_TableEvent_shape evt
      \<and> ToString (opt_prop (get_prop evt ''table'') ''schema'') = Inr s
      \<and> ToString (opt_prop (get_prop evt ''table'') ''name'') = Inr n \<longrightarrow>
      event_keys evt = Inr (Some [opt_prop (get_prop evt ''trigger'') ''name'', JStr (s @ ''-'' @ n)]))
   \<and> (\<not> spec_TableEvent_shape evt \<and> spec_ScheduledEvent_shape evt \<longrightarrow>
      event_keys evt = Inr (Some [get_prop evt ''name'']))
   \<and> (\<not> spec_TableEvent_shape evt \<and> \<not> spec_ScheduledEvent_shape evt \<longrightarrow>
      event_keys evt = Inr None)
   \<and> (handleEvent enableEventLogs eventHandlers evt = Inl (Error ''Not a Hasura Event''))
      = (\<not> spec_TableEvent_shape evt \<and> \<not> spec_ScheduledEvent_shape evt)"
proof -
  have 1: "spec_TableEvent_shape evt
      \<and> ToString (opt_prop (get_prop evt ''table'') ''schema'') = Inr s
      \<and> ToString (opt_prop (get_prop evt ''table'') ''name'') = Inr n \<longrightarrow>
      event_keys evt = Inr (Some [opt_prop (get_prop evt ''trigger'') ''name'', JStr (s @ ''-'' @ n)])"
    by (simp add: event_keys_def isHasuraEvent_shape)
  have 2: "\<not> spec_TableEvent_shape evt \<and> spec_ScheduledEvent_shape evt \<longrightarrow>
      event_keys evt = Inr (Some [get_prop evt ''name''])"
    by (simp add: event_keys_def isHasuraEvent_shape isHasuraScheduledEventPayload_shape)
  have 3: "\<not> spec_TableEvent_shape evt \<and> \<not> spec_ScheduledEvent_shape evt \<longrightarrow>
      event_keys evt = Inr None"
    by (simp add: event_keys_def isHasuraEvent_shape isHasuraScheduledEventPayload_shape)
  have 4: "(handleEvent enableEventLogs eventHandlers evt = Inl (Error ''Not a Hasura Event''))
      = (\<not> spec_TableEvent_shape evt \<and> \<not> spec_ScheduledEvent_shape evt)"
    using handleEvent_unrecognised [of evt enableEventLogs eventHandlers]
      handleEvent_recognised [of evt enableEventLogs eventHandlers]
    by (auto simp add: event_keys_None)
  from 1 2 3 4 show ?thesis by (intro conjI)
qed

theorem classification_priority_witness:
  "event_keys ev_user_created = Inr (Some [JStr ''user_created'', JStr ''public-users''])
   \<and> event_keys ev_no_schema = Inr (Some [JStr ''user_created'', JStr ''undefined-users''])
   \<and> event_keys ev_odd_values = Inr (Some [JUndefined, JStr ''null-7''])
   \<and> event_keys ev_both_shapes = Inr (Some [JStr ''user_created'', JStr ''public-users''])
   \<and> event_keys ev_scheduled = Inr (Some [JStr ''nightly''])
   \<and> event_keys ev_empty_id = Inr None
   \<and> event_keys ev_table_string = Inr None
   \<and> event_keys ev_unnamed_schedule = Inr None
   \<and> event_keys ev_unrecognized = Inr None
   \<and> handleEvent True ([] :: (string, string) event_entry list) ev_empty_id
       = Inl (Error ''Not a Hasura Event'')
   \<and> handleEvent False ([] :: (string, string) event_entry list) ev_unrecognized
       = Inl (Error ''Not a Hasura Event'')
   \<and> handleEvent False ([] :: (string, string) event_entry list) ev_scheduled
       \<noteq> Inl (Error ''Not a Hasura Event'')"
proof -
  let ?none = "[] :: (string, string) event_entry list"
  have t: "spec_TableEvent_shape ev_user_created" "spec_TableEvent_shape ev_no_schema"
    "spec_TableEvent_shape ev_odd_values" "spec_TableEvent_shape ev_both_shapes"
    by (simp_all add: eval_shape ev_user_created_def ev_no_schema_def ev_odd_values_def
        ev_both_shapes_def)
  have n: "\<not> spec_TableEvent_shape ev_scheduled" "\<not> spec_TableEvent_shape ev_empty_id"
    "\<not> spec_TableEvent_shape ev_table_string" "\<not> spec_TableEvent_shape ev_unnamed_schedule"
    "\<not> spec_TableEvent_shape ev_unrecognized"
    by (simp_all add: eval_shape ev_scheduled_def ev_empty_id_def ev_table_string_def
        ev_unnamed_schedule_def ev_unrecognized_def)
  have s: "spec_ScheduledEvent_shape ev_scheduled" "\<not> spec_ScheduledEvent_shape ev_empty_id"
    "\<not> spec_ScheduledEvent_shape ev_table_string" "\<not> spec_ScheduledEvent_shape ev_unnamed_schedule"
    "\<not> spec_ScheduledEvent_shape ev_unrecognized"
    by (simp_all add: eval_shape ev_scheduled_def ev_empty_id_def ev_table_string_def
        ev_unnamed_schedule_def ev_unrecognized_def)
  have r: "ToString (opt_prop (get_prop ev_user_created ''table'') ''schema'') = Inr ''public''"
    "ToString (opt_prop (get_prop ev_user_created ''table'') ''name'') = Inr ''users''"
    "ToString (opt_prop (get_prop ev_no_schema ''table'') ''schema'') = Inr ''undefined''"
    "ToString (opt_prop (get_prop ev_no_schema ''table'') ''name'') = Inr ''users''"
    "ToString (opt_prop (get_prop ev_odd_values ''table'') ''schema'') = Inr ''null''"
    "ToString (opt_prop (get_prop ev_odd_values ''table'') ''name'') = Inr ''7''"
    "ToString (opt_prop (get_prop ev_both_shapes ''table'') ''schema'') = Inr ''public''"
    "ToString (opt_prop (get_prop ev_both_shapes ''table'') ''name'') = Inr ''users''"
    by (simp_all add: get_prop_def ev_user_created_def ev_no_schema_def ev_odd_values_def
        ev_both_shapes_def)
  have v: "opt_prop (get_prop ev_user_created ''trigger'') ''name'' = JStr ''user_created''"
    "opt_prop (get_prop ev_no_schema ''trigger'') ''name'' = JStr ''user_created''"
    "opt_prop (get_prop ev_odd_values ''trigger'') ''name'' = JUndefined"
    "opt_prop (get_prop ev_both_shapes ''trigger'') ''name'' = JStr ''user_created''"
    "get_prop ev_scheduled ''name'' = JStr ''nightly''"
    by (simp_all add: get_prop_def ev_user_created_def ev_no_schema_def ev_odd_values_def
        ev_both_shapes_def ev_scheduled_def)
  from classification_priority [of ev_user_created "''public''" "''users''" False ?none]
    classification_priority [of ev_no_schema "''undefined''" "''users''" False ?none]
    classification_priority [of ev_odd_values "''null''" "''7''" False ?none]
    classification_priority [of ev_both_shapes "''public''" "''users''" False ?none]
    classification_priority [of ev_scheduled "[]" "[]" False ?none]
    classification_priority [of ev_empty_id "[]" "[]" True ?none]
    classification_priority [of ev_table_string "[]" "[]" False ?none]
    classification_priority [of ev_unnamed_schedule "[]" "[]" False ?none]
    classification_priority [of ev_unrecognized "[]" "[]" False ?none]
    t n s r v
  show ?thesis by simp
qed

text \<open>
  C3, as it is stated, fails: a payload with a non-empty \<^verbatim>\<open>id\<close>, an object-typed
  \<^verbatim>\<open>table\<close> and an object-typed \<^verbatim>\<open>trigger\<close> whose schema is the object
  \<^verbatim>\<open>{"toString": 1}\<close> gets no candidate keys and is not refused as unrecognised
  either: the template literal of line 220 throws a \<^verbatim>\<open>TypeError\<close>.
\<close>

theorem unconvertible_schema_is_not_classified:
  "spec_TableEvent_shape ev_odd_schema
   \<and> event_keys ev_odd_schema = Inl TypeError
   \<and> handleEvent False [\<lparr>key = ''user_created'', handler = fulfils ''created''\<rparr>] ev_odd_schema
       = Inl TypeError
   \<and> handleEvent True [\<lparr>key = ''user_created'', handler = fulfils ''created''\<rparr>] ev_odd_schema
       = Inl TypeError"
  by (simp add: eval_shape handleEvent_def event_keys_def truthy_isHasuraEvent ev_odd_schema_def)

subsection \<open>C4\<close>

text \<open>
  C4, as the code has it. When a payload is classified and none of its candidate keys
  is the key of a registered binding, no handler is invoked and \<^verbatim>\<open>handleEvent\<close>
  throws; when the candidate keys convert to a string, what it throws is a
  \<^verbatim>\<open>BadRequestException\<close> whose message ends with that string, the keys joined by
  commas.
\<close>

theorem no_handler_bad_request:
  assumes "event_keys evt = Inr (Some keys)"
    and "\<forall>x \<in> set eventHandlers. JStr (key x) \<notin> set keys"
  shows "(\<forall>x. \<not> invokes enableEventLogs eventHandlers evt x)
       \<and> (\<exists>e. handleEvent enableEventLogs eventHandlers evt = Inl e)
       \<and> (\<forall>s. ToString (JArr keys) = Inr s \<longrightarrow>
            handleEvent enableEventLogs eventHandlers evt =
              Inl (BadRequestException (''Handler not found for '' @ s)))"
proof -
  from assms(2) have m: "matching eventHandlers keys = []"
    by (simp add: matching_empty)
  note h = handleEvent_no_match [OF assms(1) m, of enableEventLogs]
  from h have 1: "\<exists>e. handleEvent enableEventLogs eventHandlers evt = Inl e"
    by (cases "ToString (JArr keys)") simp_all
  then have 2: "\<forall>x. \<not> invokes enableEventLogs eventHandlers evt x"
    by (auto simp add: invokes_def)
  from h have 3: "\<forall>s. ToString (JArr keys) = Inr s \<longrightarrow>
      handleEvent enableEventLogs eventHandlers evt =
        Inl (BadRequestException (''Handler not found for '' @ s))"
    by simp
  from 1 2 3 show ?thesis by (intro conjI)
qed

theorem no_handler_bad_request_witness:
  "event_keys ev_user_deleted = Inr (Some [JStr ''user_deleted'', JStr ''public-users''])
   \<and> handleEvent False [\<lparr>key = ''user_created'', handler = fulfils ''created''\<rparr>] ev_user_deleted
       = Inl (BadRequestException ''Handler not found for user_deleted,public-users'')
   \<and> handleEvent True [\<lparr>key = ''user_created'', handler = fulfils ''created''\<rparr>] ev_user_deleted
       = Inl (BadRequestException ''Handler not found for user_deleted,public-users'')
   \<and> \<not> invokes True [\<lparr>key = ''user_created'', handler = fulfils ''created''\<rparr>] ev_user_deleted
         \<lparr>key = ''user_created'', handler = fulfils ''created''\<rparr>
   \<and> handleEvent True [\<lparr>key = ''user_created'', handler = fulfils ''created''\<rparr>] ev_null_name
       = Inl (BadRequestException ''Handler not found for ,public-users'')
   \<and> handleEvent True [\<lparr>key = ''user_created'', handler = fulfils ''created''\<rparr>] ev_array_name
       = Inl (BadRequestException ''Handler not found for 1,2,,true,public-users'')
   \<and> handleEvent True [\<lparr>key = ''user_created'', handler = fulfils ''created''\<rparr>] ev_object_name
       = Inl (BadRequestException ''Handler not found for [object Object],public-users'')"
proof -
  let ?hs = "[\<lparr>key = ''user_created'', handler = fulfils ''created''\<rparr>]"
  let ?keys = "[JStr ''user_deleted'', JStr ''public-users'']"
  let ?null = "[JNull, JStr ''public-users'']"
  let ?array = "[JArr [JNum ''1'', JArr [JNum ''2'', JNull], JBool True], JStr ''public-users'']"
  let ?object = "[JObj [], JStr ''public-users'']"
  have k: "event_keys ev_user_deleted = Inr (Some ?keys)"
    "event_keys ev_null_name = Inr (Some ?null)"
    "event_keys ev_array_name = Inr (Some ?array)"
    "event_keys ev_object_name = Inr (Some ?object)"
    by (simp_all add: eval_keys ev_user_deleted_def ev_named_def ev_null_name_def
        ev_array_name_def ev_object_name_def)
  have m: "\<forall>x \<in> set ?hs. JStr (key x) \<notin> set ?keys" "\<forall>x \<in> set ?hs. JStr (key x) \<notin> set ?null"
    "\<forall>x \<in> set ?hs. JStr (key x) \<notin> set ?array" "\<forall>x \<in> set ?hs. JStr (key x) \<notin> set ?object"
    by simp_all
  have s: "ToString (JArr ?keys) = Inr ''user_deleted,public-users''"
    "ToString (JArr ?null) = Inr '',public-users''"
    "ToString (JArr ?array) = Inr ''1,2,,true,public-users''"
    "ToString (JArr ?object) = Inr ''[object Object],public-users''"
    by simp_all
  from no_handler_bad_request [OF k(1) m(1), of False] no_handler_bad_request [OF k(1) m(1), of True]
    no_handler_bad_request [OF k(2) m(2), of True] no_handler_bad_request [OF k(3) m(3), of True]
    no_handler_bad_request [OF k(4) m(4), of True] k(1) s
  show ?thesis by simp
qed

text \<open>
  C4, as it is stated, fails: the payload whose trigger has the object
  \<^verbatim>\<open>{"toString": 1}\<close> as its name is classified, and no binding has one of its
  candidate keys, but the template literal of line 236 (of line 230 with event logging
  on) throws a \<^verbatim>\<open>TypeError\<close>, not a \<^verbatim>\<open>BadRequestException\<close>.
\<close>

theorem unconvertible_key_is_not_bad_request:
  "event_keys ev_odd_trigger =
     Inr (Some [JObj [(''toString'', JNum ''1'')], JStr ''public-users''])
   \<and> matching [\<lparr>key = ''user_created'', handler = fulfils ''created''\<rparr>]
        [JObj [(''toString'', JNum ''1'')], JStr ''public-users''] = []
   \<and> handleEvent False [\<lparr>key = ''user_created'', handler = fulfils ''created''\<rparr>] ev_odd_trigger
       = Inl TypeError
   \<and> handleEvent True [\<lparr>key = ''user_created'', handler = fulfils ''created''\<rparr>] ev_odd_trigger
       = Inl TypeError"
  by (simp add: handleEvent_def eval_keys matching_def ev_odd_trigger_def)

subsection \<open>C5\<close>

text \<open>
  C5. When a discovered event-handler binding has neither \<^verbatim>\<open>table\<close> nor
  \<^verbatim>\<open>triggerName\<close> set (an empty trigger name counts as not set), building the handler
  list throws the error "Hasura Event Handler is invalid ...", so
  \<^verbatim>\<open>configureHasuraEventHandlers\<close> and with it \<^verbatim>\<open>onModuleInit\<close> fail and no
  \<^verbatim>\<open>handleEvent\<close> function is installed.
\<close>

theorem invalid_binding_aborts_startup:
  assumes "d \<in> set eventHandlerMeta"
    and "table (meta d) = None"
    and "\<not> string_set (triggerName (meta d))"
  shows "configureHasuraEventHandlers enableEventLogs True eventHandlerMeta =
           Inl (Error ''Hasura Event Handler is invalid. Specify either trigger name or table mapping'')
         \<and> onModuleInit enableEventLogs True actionService eventHandlerMeta actionHandlerNames =
           Inl (Error ''Hasura Event Handler is invalid. Specify either trigger name or table mapping'')
         \<and> (\<exists>e. onModuleInit enableEventLogs eventService actionService eventHandlerMeta
                  actionHandlerNames = Inl e)"
proof -
  let ?e = "Error ''Hasura Event Handler is invalid. Specify either trigger name or table mapping''"
  from assms(2,3) have "register_event d = Inl ?e"
    by (simp add: register_event_def)
  with assms(1) obtain e' where "eventHandlers_of eventHandlerMeta = Inl e'"
    by (blast dest: eventHandlers_of_throws)
  then have thrown: "eventHandlers_of eventHandlerMeta = Inl ?e"
    by (simp add: eventHandlers_of_Inl)
  then have c: "configureHasuraEventHandlers enableEventLogs True eventHandlerMeta = Inl ?e"
    by (simp add: configureHasuraEventHandlers_def)
  from thrown have "\<exists>e. configureHasuraEventHandlers enableEventLogs eventService eventHandlerMeta = Inl e"
    by (simp add: configureHasuraEventHandlers_def)
  with c show ?thesis
    by (auto simp add: onModuleInit_def)
qed

theorem invalid_binding_aborts_startup_witness:
  "configureHasuraEventHandlers False True [b_created, b_invalid] =
     Inl (Error ''Hasura Event Handler is invalid. Specify either trigger name or table mapping'')
   \<and> onModuleInit False True True [b_created, b_invalid]
        ([] :: (string, (string, string) action_handler) discovered list) =
     Inl (Error ''Hasura Event Handler is invalid. Specify either trigger name or table mapping'')"
proof -
  have 1: "b_invalid \<in> set [b_created, b_invalid]" by simp
  have 2: "table (meta b_invalid) = None" by (simp add: sample_bindings)
  have 3: "\<not> string_set (triggerName (meta b_invalid))" by (simp add: sample_bindings)
  from invalid_binding_aborts_startup [OF 1 2 3,
      of False True "[] :: (string, (string, string) action_handler) discovered list" True]
  show ?thesis by simp
qed

subsection \<open>C6\<close>

text \<open>
  C6, as the code has it. Let two bindings have the same routing key, let an event have
  this key among its candidate keys, and let the candidate keys convert to a string
  when event logging is on. Then the dispatch invokes both handlers, and the array of
  promises holds the promise of the binding registered first before that of the other.
  When all invoked handlers fulfil, then in whatever order they do, the result of the
  dispatch holds their results in the order of registration. This order is not the
  order of discovery: the bindings of one class stand together in their order of
  discovery, the classes whose names are array indices come first in ascending numeric
  order, and the other classes follow in the order in which discovery first meets them.
\<close>

theorem fan_out_in_registration_order:
  assumes "eventHandlers_of eventHandlerMeta = Inr eventHandlers"
    and "registration_order eventHandlerMeta = xs @ a # ys @ b # zs"
    and "routing_key (meta a) = routing_key (meta b)"
    and "event_keys evt = Inr (Some keys)"
    and "JStr (routing_key (meta a)) \<in> set keys"
    and "enableEventLogs \<longrightarrow> (\<exists>s. ToString (JArr keys) = Inr s)"
  shows "invokes enableEventLogs eventHandlers evt (event_entry_of a)
     \<and> invokes enableEventLogs eventHandlers evt (event_entry_of b)
     \<and> handleEvent enableEventLogs eventHandlers evt =
         Inr (map (\<lambda>d. method_handler d evt) (keyed keys xs @ a # keyed keys ys @ b # keyed keys zs))
     \<and> (\<forall>res settled.
          (\<forall>d \<in> set (keyed keys (registration_order eventHandlerMeta)). method_handler d evt = Inr (res d))
          \<and> distinct settled
          \<and> set settled = {..<length (keyed keys (registration_order eventHandlerMeta))} \<longrightarrow>
          Promise_all (map (\<lambda>d. method_handler d evt) (keyed keys (registration_order eventHandlerMeta)))
              settled =
            Fulfilled (map (\<lambda>d. Some (res d)) (keyed keys xs @ a # keyed keys ys @ b # keyed keys zs)))"
proof -
  let ?r = "registration_order eventHandlerMeta"
  let ?m = "keyed keys xs @ a # keyed keys ys @ b # keyed keys zs"
  from assms(3,5) have kb: "JStr (routing_key (meta b)) \<in> set keys" by simp
  have hs: "eventHandlers = map event_entry_of ?r"
    using assms(1) by (rule eventHandlers_of_Inr)
  have k: "keyed keys ?r = ?m"
    using assms(5) kb by (simp add: assms(2) keyed_append keyed_Cons)
  have m: "matching eventHandlers keys = map event_entry_of ?m"
    by (simp only: hs matching_map_entry k)
  then have ne: "matching eventHandlers keys \<noteq> []"
    by simp
  have i: "invokes enableEventLogs eventHandlers evt (event_entry_of a)
      \<and> invokes enableEventLogs eventHandlers evt (event_entry_of b)"
    by (simp add: invokes_iff [OF assms(4,6)] m)
  have h: "handleEvent enableEventLogs eventHandlers evt = Inr (map (\<lambda>d. method_handler d evt) ?m)"
    by (simp add: handleEvent_calls [OF assms(4,6) ne] m comp_def handler_entry)
  have p: "\<forall>res settled.
          (\<forall>d \<in> set (keyed keys ?r). method_handler d evt = Inr (res d))
          \<and> distinct settled \<and> set settled = {..<length (keyed keys ?r)} \<longrightarrow>
          Promise_all (map (\<lambda>d. method_handler d evt) (keyed keys ?r)) settled =
            Fulfilled (map (\<lambda>d. Some (res d)) ?m)"
  proof (intro allI impI, elim conjE)
    fix res :: "(HasuraEventHandlerConfig, js_object \<Rightarrow> 'a + 'b) discovered \<Rightarrow> 'b" and settled
    assume r: "\<forall>d \<in> set (keyed keys ?r). method_handler d evt = Inr (res d)"
      and d: "distinct settled" and s: "set settled = {..<length (keyed keys ?r)}"
    from r have ps: "map (\<lambda>d. method_handler d evt) (keyed keys ?r) = map Inr (map res ?m)"
      by (simp add: k)
    from s have s': "set settled = {..<length (map res ?m)}"
      by (simp add: k)
    have "Promise_all (map Inr (map res ?m)) settled
        = (Fulfilled (map Some (map res ?m)) :: ('a, 'b option list) promise)"
      using d s' by (rule Promise_all_fulfilled)
    then show "Promise_all (map (\<lambda>d. method_handler d evt) (keyed keys ?r)) settled =
        Fulfilled (map (\<lambda>d. Some (res d)) ?m)"
      by (simp only: ps map_map comp_def)
  qed
  from i h p show ?thesis by (intro conjI) simp_all
qed

theorem fan_out_in_registration_order_witness:
  "eventHandlers_of [b_created, b_ten, b_removed, b_nine, b_audit] =
     Inr [\<lparr>key = ''public-users'', handler = fulfils ''nine''\<rparr>,
          \<lparr>key = ''user_created'', handler = fulfils ''ten''\<rparr>,
          \<lparr>key = ''user_created'', handler = fulfils ''created''\<rparr>,
          \<lparr>key = ''user_deleted'', handler = fulfils ''removed''\<rparr>,
          \<lparr>key = ''user_created'', handler = fulfils ''audited''\<rparr>]
   \<and> registration_order [b_created, b_ten, b_removed, b_nine, b_audit] =
       [b_nine, b_ten, b_created, b_removed, b_audit]
   \<and> handleEvent True
        [\<lparr>key = ''public-users'', handler = fulfils ''nine''\<rparr>,
         \<lparr>key = ''user_created'', handler = fulfils ''ten''\<rparr>,
         \<lparr>key = ''user_created'', handler = fulfils ''created''\<rparr>,
         \<lparr>key = ''user_deleted'', handler = fulfils ''removed''\<rparr>,
         \<lparr>key = ''user_created'', handler = fulfils ''audited''\<rparr>] ev_user_created
       = Inr [Inr ''nine'', Inr ''ten'', Inr ''created'', Inr ''audited'']
   \<and> Promise_all [Inr ''nine'', Inr ''ten'', Inr ''created'', Inr ''audited'' :: string + string]
        [3, 0, 2, 1]
       = Fulfilled [Some ''nine'', Some ''ten'', Some ''created'', Some ''audited'']"
proof -
  let ?ds = "[b_created, b_ten, b_removed, b_nine, b_audit]"
  let ?hs = "[\<lparr>key = ''public-users'', handler = fulfils ''nine''\<rparr>,
              \<lparr>key = ''user_created'', handler = fulfils ''ten''\<rparr>,
              \<lparr>key = ''user_created'', handler = fulfils ''created''\<rparr>,
              \<lparr>key = ''user_deleted'', handler = fulfils ''removed''\<rparr>,
              \<lparr>key = ''user_created'', handler = fulfils ''audited''\<rparr>]"
  let ?keys = "[JStr ''user_created'', JStr ''public-users'']"
  let ?res = "\<lambda>d :: (HasuraEventHandlerConfig, js_object \<Rightarrow> string + string) discovered.
      projr (method_handler d ev_user_created)"
  have b: "eventHandlers_of ?ds = Inr ?hs"
    by (simp add: eval_build sample_bindings)
  have o: "registration_order ?ds = [b_nine] @ b_ten # [b_created, b_removed] @ b_audit # []"
    by (simp add: registration_order_def class_order_def is_digit_def digit_value_def decimal_def
        sample_bindings)
  have s: "routing_key (meta b_ten) = routing_key (meta b_audit)"
    by (simp add: routing_key_def sample_bindings)
  have e: "event_keys ev_user_created = Inr (Some ?keys)"
    by (simp add: eval_keys ev_user_created_def)
  have m: "JStr (routing_key (meta b_ten)) \<in> set ?keys"
    by (simp add: routing_key_def sample_bindings)
  have l: "True \<longrightarrow> (\<exists>s. ToString (JArr ?keys) = Inr s)"
    by simp
  note t = fan_out_in_registration_order [OF b o s e m l]
  have k: "keyed ?keys [b_nine] = [b_nine]" "keyed ?keys [b_created, b_removed] = [b_created]"
    "keyed ?keys [] = ([] :: (HasuraEventHandlerConfig, js_object \<Rightarrow> string + string) discovered list)"
    "keyed ?keys (registration_order ?ds) = [b_nine, b_ten, b_created, b_audit]"
    unfolding o by (simp_all add: keyed_def routing_key_def sample_bindings)
  have v: "method_handler b_nine ev_user_created = Inr ''nine''"
    "method_handler b_ten ev_user_created = Inr ''ten''"
    "method_handler b_created ev_user_created = Inr ''created''"
    "method_handler b_audit ev_user_created = Inr ''audited''"
    by (simp_all add: sample_bindings fulfils_def)
  from t have h: "handleEvent True ?hs ev_user_created
      = Inr [Inr ''nine'', Inr ''ten'', Inr ''created'', Inr ''audited'']"
    by (simp add: k v)
  have four: "set [3, 0, 2, 1 :: nat] = {..<length [b_nine, b_ten, b_created, b_audit]}"
    by auto
  have pre: "(\<forall>d \<in> set (keyed ?keys (registration_order ?ds)). method_handler d ev_user_created = Inr (?res d))
      \<and> distinct [3, 0, 2, 1 :: nat]
      \<and> set [3, 0, 2, 1 :: nat] = {..<length (keyed ?keys (registration_order ?ds))}"
    unfolding k using four by (simp add: v)
  note p = t [THEN conjunct2, THEN conjunct2, THEN conjunct2, rule_format, of ?res "[3, 0, 2, 1]", OF pre]
  then have "Promise_all [Inr ''nine'', Inr ''ten'', Inr ''created'', Inr ''audited'' :: string + string]
        [3, 0, 2, 1]
       = Fulfilled [Some ''nine'', Some ''ten'', Some ''created'', Some ''audited'']"
    by (simp add: k v)
  with b o h show ?thesis by simp
qed

text \<open>
  C6, as it is stated, fails. Discovery meets three bindings of one trigger, of the
  classes \<^verbatim>\<open>UserService\<close>, \<^verbatim>\<open>AuditService\<close> and \<^verbatim>\<open>UserService\<close> again; the
  result of the dispatch holds the result of the third before that of the second. And
  with event logging on, two bindings of the key \<^verbatim>\<open>public-users\<close> are not invoked by
  an event that has this key, when its other key does not convert to a string.
\<close>

theorem results_not_in_discovery_order:
  "eventHandlers_of [b_created, b_audit, b_welcomed] =
     Inr [\<lparr>key = ''user_created'', handler = fulfils ''created''\<rparr>,
          \<lparr>key = ''user_created'', handler = fulfils ''welcomed''\<rparr>,
          \<lparr>key = ''user_created'', handler = fulfils ''audited''\<rparr>]
   \<and> handleEvent False
        [\<lparr>key = ''user_created'', handler = fulfils ''created''\<rparr>,
         \<lparr>key = ''user_created'', handler = fulfils ''welcomed''\<rparr>,
         \<lparr>key = ''user_created'', handler = fulfils ''audited''\<rparr>] ev_user_created
       = Inr [Inr ''created'', Inr ''welcomed'', Inr ''audited'']
   \<and> Promise_all [Inr ''created'', Inr ''welcomed'', Inr ''audited'' :: string + string] [0, 1, 2]
       = Fulfilled [Some ''created'', Some ''welcomed'', Some ''audited'']
   \<and> eventHandlers_of [b_users, b_shadow] =
       Inr [\<lparr>key = ''public-users'', handler = fulfils ''listed''\<rparr>,
            \<lparr>key = ''public-users'', handler = fulfils ''reported''\<rparr>]
   \<and> event_keys ev_odd_trigger =
       Inr (Some [JObj [(''toString'', JNum ''1'')], JStr ''public-users''])
   \<and> handleEvent True
        [\<lparr>key = ''public-users'', handler = fulfils ''listed''\<rparr>,
         \<lparr>key = ''public-users'', handler = fulfils ''reported''\<rparr>] ev_odd_trigger
       = Inl TypeError
   \<and> \<not> invokes True
        [\<lparr>key = ''public-users'', handler = fulfils ''listed''\<rparr>,
         \<lparr>key = ''public-users'', handler = fulfils ''reported''\<rparr>] ev_odd_trigger
        \<lparr>key = ''public-users'', handler = fulfils ''listed''\<rparr>"
proof -
  have 1: "eventHandlers_of [b_created, b_audit, b_welcomed] =
     Inr [\<lparr>key = ''user_created'', handler = fulfils ''created''\<rparr>,
          \<lparr>key = ''user_created'', handler = fulfils ''welcomed''\<rparr>,
          \<lparr>key = ''user_created'', handler = fulfils ''audited''\<rparr>]"
    by (simp add: eval_build sample_bindings)
  have 2: "handleEvent False
        [\<lparr>key = ''user_created'', handler = fulfils ''created''\<rparr>,
         \<lparr>key = ''user_created'', handler = fulfils ''welcomed''\<rparr>,
         \<lparr>key = ''user_created'', handler = fulfils ''audited''\<rparr>] ev_user_created
       = Inr [Inr ''created'', Inr ''welcomed'', Inr ''audited'']"
    by (simp add: handleEvent_def eval_keys matching_def ev_user_created_def fulfils_def)
  have 3: "Promise_all [Inr ''created'', Inr ''welcomed'', Inr ''audited'' :: string + string] [0, 1, 2]
       = Fulfilled [Some ''created'', Some ''welcomed'', Some ''audited'']"
    by (simp add: Promise_all_def all_init_def settle_def Let_def)
  have 4: "eventHandlers_of [b_users, b_shadow] =
       Inr [\<lparr>key = ''public-users'', handler = fulfils ''listed''\<rparr>,
            \<lparr>key = ''public-users'', handler = fulfils ''reported''\<rparr>]"
    by (simp add: eval_build sample_bindings)
  have 5: "event_keys ev_odd_trigger =
       Inr (Some [JObj [(''toString'', JNum ''1'')], JStr ''public-users''])"
    by (simp add: eval_keys ev_odd_trigger_def)
  have 6: "handleEvent True
        [\<lparr>key = ''public-users'', handler = fulfils ''listed''\<rparr>,
         \<lparr>key = ''public-users'', handler = fulfils ''reported''\<rparr>] ev_odd_trigger
       = Inl TypeError"
    by (simp add: handleEvent_def 5 matching_def)
  from 1 2 3 4 5 6 show ?thesis
    by (simp add: invokes_def)
qed

subsection \<open>C7\<close>



subsection \<open>C8\<close>

text \<open>
  C8, as the code has it. The routing key of a binding is \<^verbatim>\<open>triggerName\<close> when that
  is set, and otherwise the string of schema and name of \<^verbatim>\<open>table\<close>, the schema
  defaulted to \<^verbatim>\<open>public\<close> when it is absent (an empty string counts as not set and
  as absent, as in C5). The binding is registered under this key. Of the table events whose schema and name convert to
  strings (and whose candidate keys do when event logging is on), exactly those invoke
  it for which the key is the event's \<^verbatim>\<open>trigger.name\<close> or the event's string of
  \<^verbatim>\<open>table.schema\<close> and \<^verbatim>\<open>table.name\<close>; for these \<^verbatim>\<open>handleEvent\<close> returns the
  promises of the matching entries, the binding's among them.
\<close>

theorem routing_key_invocation:
  assumes "d \<in> set eventHandlerMeta"
    and "eventHandlers_of eventHandlerMeta = Inr eventHandlers"
  shows "(\<forall>t. triggerName (meta d) = Some t \<and> t \<noteq> [] \<longrightarrow> routing_key (meta d) = t)
     \<and> (\<forall>tb. \<not> string_set (triggerName (meta d)) \<and> table (meta d) = Some tb \<longrightarrow>
           routing_key (meta d) =
             (case schema tb of None \<Rightarrow> ''public'' | Some s \<Rightarrow> if s = [] then ''public'' else s)
             @ ''-'' @ name tb)
     \<and> event_entry_of d \<in> set eventHandlers
     \<and> (\<forall>evt s n.
           spec_TableEvent_shape evt
           \<and> ToString (opt_prop (get_prop evt ''table'') ''schema'') = Inr s
           \<and> ToString (opt_prop (get_prop evt ''table'') ''name'') = Inr n
           \<and> (enableEventLogs \<longrightarrow>
                (\<exists>l. ToString (JArr [opt_prop (get_prop evt ''trigger'') ''name'', JStr (s @ ''-'' @ n)])
                      = Inr l)) \<longrightarrow>
           invokes enableEventLogs eventHandlers evt (event_entry_of d) =
             (opt_prop (get_prop evt ''trigger'') ''name'' = JStr (routing_key (meta d))
              \<or> s @ ''-'' @ n = routing_key (meta d))
           \<and> (invokes enableEventLogs eventHandlers evt (event_entry_of d) \<longrightarrow>
                handleEvent enableEventLogs eventHandlers evt =
                  Inr (map (\<lambda>x. handler x evt)
                    (matching eventHandlers
                      [opt_prop (get_prop evt ''trigger'') ''name'', JStr (s @ ''-'' @ n)]))
                \<and> event_entry_of d \<in> set (matching eventHandlers
                      [opt_prop (get_prop evt ''trigger'') ''name'', JStr (s @ ''-'' @ n)])))"
proof -
  have 1: "\<forall>t. triggerName (meta d) = Some t \<and> t \<noteq> [] \<longrightarrow> routing_key (meta d) = t"
    by (simp add: routing_key_def)
  have 2: "\<forall>tb. \<not> string_set (triggerName (meta d)) \<and> table (meta d) = Some tb \<longrightarrow>
           routing_key (meta d) =
             (case schema tb of None \<Rightarrow> ''public'' | Some s \<Rightarrow> if s = [] then ''public'' else s)
             @ ''-'' @ name tb"
    by (cases "triggerName (meta d)") (auto simp add: routing_key_def split: option.splits)
  have 3: "event_entry_of d \<in> set eventHandlers"
    using assms(2,1) by (rule eventHandlers_of_member)
  have 4: "\<forall>evt s n.
           spec_TableEvent_shape evt
           \<and> ToString (opt_prop (get_prop evt ''table'') ''schema'') = Inr s
           \<and> ToString (opt_prop (get_prop evt ''table'') ''name'') = Inr n
           \<and> (enableEventLogs \<longrightarrow>
                (\<exists>l. ToString (JArr [opt_prop (get_prop evt ''trigger'') ''name'', JStr (s @ ''-'' @ n)])
                      = Inr l)) \<longrightarrow>
           invokes enableEventLogs eventHandlers evt (event_entry_of d) =
             (opt_prop (get_prop evt ''trigger'') ''name'' = JStr (routing_key (meta d))
              \<or> s @ ''-'' @ n = routing_key (meta d))
           \<and> (invokes enableEventLogs eventHandlers evt (event_entry_of d) \<longrightarrow>
                handleEvent enableEventLogs eventHandlers evt =
                  Inr (map (\<lambda>x. handler x evt)
                    (matching eventHandlers
                      [opt_prop (get_prop evt ''trigger'') ''name'', JStr (s @ ''-'' @ n)]))
                \<and> event_entry_of d \<in> set (matching eventHandlers
                      [opt_prop (get_prop evt ''trigger'') ''name'', JStr (s @ ''-'' @ n)]))"
  proof (intro allI impI, elim conjE)
    fix evt s n
    let ?keys = "[opt_prop (get_prop evt ''trigger'') ''name'', JStr (s @ ''-'' @ n)]"
    assume shape: "spec_TableEvent_shape evt"
      and s: "ToString (opt_prop (get_prop evt ''table'') ''schema'') = Inr s"
      and n: "ToString (opt_prop (get_prop evt ''table'') ''name'') = Inr n"
      and l: "enableEventLogs \<longrightarrow> (\<exists>l. ToString (JArr ?keys) = Inr l)"
    from shape s n have k: "event_keys evt = Inr (Some ?keys)"
      by (simp add: event_keys_def isHasuraEvent_shape)
    note i = invokes_iff [OF k l, of eventHandlers "event_entry_of d"]
    have a: "invokes enableEventLogs eventHandlers evt (event_entry_of d) =
        (opt_prop (get_prop evt ''trigger'') ''name'' = JStr (routing_key (meta d))
         \<or> s @ ''-'' @ n = routing_key (meta d))"
      using 3 by (auto simp add: i matching_def key_entry)
    have b: "invokes enableEventLogs eventHandlers evt (event_entry_of d) \<longrightarrow>
        handleEvent enableEventLogs eventHandlers evt =
          Inr (map (\<lambda>x. handler x evt) (matching eventHandlers ?keys))
        \<and> event_entry_of d \<in> set (matching eventHandlers ?keys)"
    proof
      assume "invokes enableEventLogs eventHandlers evt (event_entry_of d)"
      then have m: "event_entry_of d \<in> set (matching eventHandlers ?keys)"
        by (simp only: i)
      then have "matching eventHandlers ?keys \<noteq> []"
        by auto
      then have "handleEvent enableEventLogs eventHandlers evt =
          Inr (map (\<lambda>x. handler x evt) (matching eventHandlers ?keys))"
        by (rule handleEvent_calls [OF k l])
      with m show "handleEvent enableEventLogs eventHandlers evt =
          Inr (map (\<lambda>x. handler x evt) (matching eventHandlers ?keys))
        \<and> event_entry_of d \<in> set (matching eventHandlers ?keys)"
        by simp
    qed
    from a b show "invokes enableEventLogs eventHandlers evt (event_entry_of d) =
             (opt_prop (get_prop evt ''trigger'') ''name'' = JStr (routing_key (meta d))
              \<or> s @ ''-'' @ n = routing_key (meta d))
           \<and> (invokes enableEventLogs eventHandlers evt (event_entry_of d) \<longrightarrow>
                handleEvent enableEventLogs eventHandlers evt =
                  Inr (map (\<lambda>x. handler x evt) (matching eventHandlers ?keys))
                \<and> event_entry_of d \<in> set (matching eventHandlers ?keys))"
      by (rule conjI)
  qed
  from 1 2 3 4 show ?thesis by (intro conjI)
qed

theorem routing_key_invocation_witness:
  "eventHandlers_of [b_created, b_users] =
     Inr [\<lparr>key = ''user_created'', handler = fulfils ''created''\<rparr>,
          \<lparr>key = ''public-users'', handler = fulfils ''listed''\<rparr>]
   \<and> event_entry_of b_created = \<lparr>key = ''user_created'', handler = fulfils ''created''\<rparr>
   \<and> event_entry_of b_users = \<lparr>key = ''public-users'', handler = fulfils ''listed''\<rparr>
   \<and> invokes True [\<lparr>key = ''user_created'', handler = fulfils ''created''\<rparr>,
                    \<lparr>key = ''public-users'', handler = fulfils ''listed''\<rparr>] ev_user_created
         (event_entry_of b_created)
   \<and> handleEvent True [\<lparr>key = ''user_created'', handler = fulfils ''created''\<rparr>,
                       \<lparr>key = ''public-users'', handler = fulfils ''listed''\<rparr>] ev_user_created
       = Inr [Inr ''created'', Inr ''listed'']
   \<and> \<not> invokes True [\<lparr>key = ''user_created'', handler = fulfils ''created''\<rparr>,
                      \<lparr>key = ''public-users'', handler = fulfils ''listed''\<rparr>] ev_user_deleted
         (event_entry_of b_created)
   \<and> invokes True [\<lparr>key = ''user_created'', handler = fulfils ''created''\<rparr>,
                    \<lparr>key = ''public-users'', handler = fulfils ''listed''\<rparr>] ev_user_deleted
         (event_entry_of b_users)
   \<and> handleEvent True [\<lparr>key = ''user_created'', handler = fulfils ''created''\<rparr>,
                       \<lparr>key = ''public-users'', handler = fulfils ''listed''\<rparr>] ev_user_deleted
       = Inr [Inr ''listed'']
   \<and> \<not> invokes False [\<lparr>key = ''user_created'', handler = fulfils ''created''\<rparr>,
                       \<lparr>key = ''public-users'', handler = fulfils ''listed''\<rparr>] ev_no_schema
         (event_entry_of b_users)"
proof -
  let ?ds = "[b_created, b_users]"
  let ?hs = "[\<lparr>key = ''user_created'', handler = fulfils ''created''\<rparr>,
              \<lparr>key = ''public-users'', handler = fulfils ''listed''\<rparr>]"
  have b: "eventHandlers_of ?ds = Inr ?hs"
    by (simp add: eval_build sample_bindings)
  have c: "b_created \<in> set ?ds" and u: "b_users \<in> set ?ds"
    by simp_all
  have kc: "routing_key (meta b_created) = ''user_created''"
    and ku: "routing_key (meta b_users) = ''public-users''"
    and ec: "event_entry_of b_created = \<lparr>key = ''user_created'', handler = fulfils ''created''\<rparr>"
    and eu: "event_entry_of b_users = \<lparr>key = ''public-users'', handler = fulfils ''listed''\<rparr>"
    by (simp_all add: event_entry_of_def routing_key_def sample_bindings)
  have e: "spec_TableEvent_shape ev_user_created" "spec_TableEvent_shape ev_user_deleted"
    "spec_TableEvent_shape ev_no_schema"
    by (simp_all add: eval_shape ev_user_created_def ev_user_deleted_def ev_no_schema_def)
  have r: "ToString (opt_prop (get_prop ev_user_created ''table'') ''schema'') = Inr ''public''"
    "ToString (opt_prop (get_prop ev_user_created ''table'') ''name'') = Inr ''users''"
    "ToString (opt_prop (get_prop ev_user_deleted ''table'') ''schema'') = Inr ''public''"
    "ToString (opt_prop (get_prop ev_user_deleted ''table'') ''name'') = Inr ''users''"
    "ToString (opt_prop (get_prop ev_no_schema ''table'') ''schema'') = Inr ''undefined''"
    "ToString (opt_prop (get_prop ev_no_schema ''table'') ''name'') = Inr ''users''"
    by (simp_all add: get_prop_def ev_user_created_def ev_user_deleted_def ev_no_schema_def)
  have v: "opt_prop (get_prop ev_user_created ''trigger'') ''name'' = JStr ''user_created''"
    "opt_prop (get_prop ev_user_deleted ''trigger'') ''name'' = JStr ''user_deleted''"
    "opt_prop (get_prop ev_no_schema ''trigger'') ''name'' = JStr ''user_created''"
    by (simp_all add: get_prop_def ev_user_created_def ev_user_deleted_def ev_no_schema_def)
  note tc = routing_key_invocation [OF c b, of True, THEN conjunct2, THEN conjunct2, THEN conjunct2, rule_format]
  note tu = routing_key_invocation [OF u b, of True, THEN conjunct2, THEN conjunct2, THEN conjunct2, rule_format]
  note tf = routing_key_invocation [OF u b, of False, THEN conjunct2, THEN conjunct2, THEN conjunct2, rule_format]
  from tc [of ev_user_created "''public''" "''users''"] tc [of ev_user_deleted "''public''" "''users''"]
    tu [of ev_user_deleted "''public''" "''users''"] tf [of ev_no_schema "''undefined''" "''users''"]
    b e r v
  show ?thesis
    by (simp add: kc ku ec eu matching_def fulfils_def)
qed

text \<open>
  C8, as it is stated, fails. A binding with only the trigger name \<^verbatim>\<open>public-users\<close>
  is invoked by an event whose \<^verbatim>\<open>trigger.name\<close> is \<^verbatim>\<open>user_created\<close>, through the
  event's table key; a binding with only the table \<^verbatim>\<open>users\<close> is invoked by an event
  of the table \<^verbatim>\<open>audit.log\<close>, through the event's trigger name. And a binding with
  only the trigger name \<^verbatim>\<open>user_created\<close> is not invoked by an event of that trigger
  whose schema does not convert to a string.
\<close>

theorem binding_invoked_through_other_key:
  "triggerName (meta b_shadow) = Some ''public-users'' \<and> table (meta b_shadow) = None
   \<and> eventHandlers_of [b_shadow, b_users] =
       Inr [\<lparr>key = ''public-users'', handler = fulfils ''reported''\<rparr>,
            \<lparr>key = ''public-users'', handler = fulfils ''listed''\<rparr>]
   \<and> spec_TableEvent_shape ev_user_created
   \<and> opt_prop (get_prop ev_user_created ''trigger'') ''name'' = JStr ''user_created''
   \<and> invokes False [\<lparr>key = ''public-users'', handler = fulfils ''reported''\<rparr>,
                     \<lparr>key = ''public-users'', handler = fulfils ''listed''\<rparr>] ev_user_created
        \<lparr>key = ''public-users'', handler = fulfils ''reported''\<rparr>
   \<and> triggerName (meta b_users) = None
   \<and> table (meta b_users) = Some \<lparr>schema = None, name = ''users''\<rparr>
   \<and> spec_TableEvent_shape ev_log_written
   \<and> opt_prop (get_prop ev_log_written ''table'') ''schema'' = JStr ''audit''
   \<and> opt_prop (get_prop ev_log_written ''table'') ''name'' = JStr ''log''
   \<and> invokes False [\<lparr>key = ''public-users'', handler = fulfils ''reported''\<rparr>,
                     \<lparr>key = ''public-users'', handler = fulfils ''listed''\<rparr>] ev_log_written
        \<lparr>key = ''public-users'', handler = fulfils ''listed''\<rparr>
   \<and> triggerName (meta b_created) = Some ''user_created'' \<and> table (meta b_created) = None
   \<and> eventHandlers_of [b_created] = Inr [\<lparr>key = ''user_created'', handler = fulfils ''created''\<rparr>]
   \<and> spec_TableEvent_shape ev_odd_schema
   \<and> opt_prop (get_prop ev_odd_schema ''trigger'') ''name'' = JStr ''user_created''
   \<and> handleEvent False [\<lparr>key = ''user_created'', handler = fulfils ''created''\<rparr>] ev_odd_schema
       = Inl TypeError
   \<and> \<not> invokes False [\<lparr>key = ''user_created'', handler = fulfils ''created''\<rparr>] ev_odd_schema
        \<lparr>key = ''user_created'', handler = fulfils ''created''\<rparr>"
proof -
  have b: "eventHandlers_of [b_shadow, b_users] =
       Inr [\<lparr>key = ''public-users'', handler = fulfils ''reported''\<rparr>,
            \<lparr>key = ''public-users'', handler = fulfils ''listed''\<rparr>]"
    "eventHandlers_of [b_created] = Inr [\<lparr>key = ''user_created'', handler = fulfils ''created''\<rparr>]"
    by (simp_all add: eval_build sample_bindings)
  have m: "triggerName (meta b_shadow) = Some ''public-users''" "table (meta b_shadow) = None"
    "triggerName (meta b_users) = None" "table (meta b_users) = Some \<lparr>schema = None, name = ''users''\<rparr>"
    "triggerName (meta b_created) = Some ''user_created''" "table (meta b_created) = None"
    by (simp_all add: sample_bindings)
  have e: "spec_TableEvent_shape ev_user_created" "spec_TableEvent_shape ev_log_written"
    "spec_TableEvent_shape ev_odd_schema"
    by (simp_all add: eval_shape ev_user_created_def ev_log_written_def ev_odd_schema_def)
  have k: "event_keys ev_user_created = Inr (Some [JStr ''user_created'', JStr ''public-users''])"
    "event_keys ev_log_written = Inr (Some [JStr ''public-users'', JStr ''audit-log''])"
    "event_keys ev_odd_schema = Inl TypeError"
    by (simp_all add: eval_keys ev_user_created_def ev_log_written_def ev_odd_schema_def)
  have v: "opt_prop (get_prop ev_user_created ''trigger'') ''name'' = JStr ''user_created''"
    "opt_prop (get_prop ev_log_written ''table'') ''schema'' = JStr ''audit''"
    "opt_prop (get_prop ev_log_written ''table'') ''name'' = JStr ''log''"
    "opt_prop (get_prop ev_odd_schema ''trigger'') ''name'' = JStr ''user_created''"
    by (simp_all add: get_prop_def ev_user_created_def ev_log_written_def ev_odd_schema_def)
  from b m e v show ?thesis
    by (simp add: invokes_def handleEvent_def k matching_def)
qed

subsection \<open>C9\<close>

text \<open>
  C9. A payload with a truthy \<^verbatim>\<open>id\<close> whose \<^verbatim>\<open>table\<close> and \<^verbatim>\<open>trigger\<close> are
  \<^verbatim>\<open>null\<close> passes the shape check of a table event, since \<^verbatim>\<open>typeof null\<close> is
  \<^verbatim>\<open>'object'\<close>. Its candidate keys are \<^verbatim>\<open>[undefined, "undefined-undefined"]\<close>, and
  when no binding has the key \<^verbatim>\<open>undefined-undefined\<close> (a binding's key is a string,
  never \<^verbatim>\<open>undefined\<close>) the dispatch throws the \<^verbatim>\<open>BadRequestException\<close> of an
  unrouted event, not the error of an unrecognised payload, with event logging off and
  with event logging on.
\<close>

theorem null_table_trigger_is_table_event:
  assumes "truthy (get_prop evt ''id'')"
    and "get_prop evt ''table'' = JNull"
    and "get_prop evt ''trigger'' = JNull"
    and "\<forall>x \<in> set eventHandlers. key x \<noteq> ''undefined-undefined''"
  shows "truthy (isHasuraEvent evt)
         \<and> event_keys evt = Inr (Some [JUndefined, JStr ''undefined-undefined''])
         \<and> handleEvent enableEventLogs eventHandlers evt =
             Inl (BadRequestException ''Handler not found for ,undefined-undefined'')"
proof -
  have shape: "truthy (isHasuraEvent evt)"
    using assms(1-3) by (simp add: truthy_isHasuraEvent)
  then have keys: "event_keys evt = Inr (Some [JUndefined, JStr ''undefined-undefined''])"
    using assms(2,3) by (simp add: event_keys_def)
  have "matching eventHandlers [JUndefined, JStr ''undefined-undefined''] = []"
    using assms(4) by (simp add: matching_empty)
  with keys have "handleEvent enableEventLogs eventHandlers evt =
      Inl (BadRequestException ''Handler not found for ,undefined-undefined'')"
    by (simp add: handleEvent_def)
  with shape keys show ?thesis by simp
qed

theorem null_table_trigger_is_table_event_witness:
  "truthy (get_prop ev_null ''id'')
   \<and> get_prop ev_null ''table'' = JNull \<and> get_prop ev_null ''trigger'' = JNull
   \<and> event_keys ev_null = Inr (Some [JUndefined, JStr ''undefined-undefined''])
   \<and> handleEvent False [\<lparr>key = ''user_created'', handler = fulfils ''created''\<rparr>] ev_null
       = Inl (BadRequestException ''Handler not found for ,undefined-undefined'')
   \<and> handleEvent True [\<lparr>key = ''user_created'', handler = fulfils ''created''\<rparr>] ev_null
       = Inl (BadRequestException ''Handler not found for ,undefined-undefined'')"
proof -
  let ?hs = "[\<lparr>key = ''user_created'', handler = fulfils ''created''\<rparr>]"
  have 1: "truthy (get_prop ev_null ''id'')" by (simp add: ev_null_def get_prop_def)
  have 2: "get_prop ev_null ''table'' = JNull" by (simp add: ev_null_def get_prop_def)
  have 3: "get_prop ev_null ''trigger'' = JNull" by (simp add: ev_null_def get_prop_def)
  have 4: "\<forall>x \<in> set ?hs. key x \<noteq> ''undefined-undefined''" by simp
  from null_table_trigger_is_table_event [OF 1 2 3 4, of False]
    null_table_trigger_is_table_event [OF 1 2 3 4, of True] 1 2 3
  show ?thesis by simp
qed

subsection \<open>C10\<close>

text \<open>
  C10, as the code has it. When several action handlers are registered under one name,
  the table keeps the one registered last, start-up raises no error, and dispatching
  the name calls that handler. The order of registration is this: the bindings of one
  class stand together in their order of discovery, the classes whose names are array
  indices come first in ascending numeric order, and the other classes follow in the
  order in which discovery first meets them.
\<close>

theorem duplicate_action_last_wins:
  assumes "registration_order actionHandlerNames = before @ d # after"
    and "\<forall>d' \<in> set after. meta d' \<noteq> meta d"
    and "action_name (action a) = meta d"
  shows "actionHandlers_of actionHandlerNames =
           map (\<lambda>d. (meta d, method_handler d)) (registration_order actionHandlerNames)
         \<and> new_Map (actionHandlers_of actionHandlerNames) (meta d) = Some (method_handler d)
         \<and> (\<exists>dispatch. configureHasuraActionHandlers True actionHandlerNames = Inr dispatch
              \<and> dispatch a hdrs = Inr (method_handler d (input a) a hdrs))"
proof -
  let ?p = "\<lambda>d. (meta d, method_handler d)"
  have l: "actionHandlers_of actionHandlerNames = map ?p before @ (meta d, method_handler d) # map ?p after"
    by (simp add: actionHandlers_of_registration assms(1))
  from assms(2) have "meta d \<notin> fst ` set (map ?p after)"
    by (auto simp add: image_iff)
  then have m: "new_Map (actionHandlers_of actionHandlerNames) (meta d) = Some (method_handler d)"
    unfolding l by (rule new_Map_last)
  with assms(3) show ?thesis
    by (simp add: actionHandlers_of_registration configureHasuraActionHandlers_def handleAction_def)
qed

theorem duplicate_action_last_wins_witness:
  "registration_order [a_seven, a_big, a_create, a_most, a_ten, a_delete, a_nine] =
     [a_nine, a_ten, a_most, a_seven, a_big, a_create, a_delete]
   \<and> actionHandlers_of [a_seven, a_big, a_create, a_most, a_ten, a_delete, a_nine] =
       [(''create_user'', echo ''9.create''), (''create_user'', echo ''10.create''),
        (''create_user'', echo ''4294967294.create''),
        (''create_user'', echo ''07.create''), (''create_user'', echo ''4294967295.create''),
        (''create_user'', echo ''UserActions.createUser''),
        (''delete_user'', echo ''UserActions.deleteUser'')]
   \<and> (\<exists>dispatch.
        configureHasuraActionHandlers True [a_seven, a_big, a_create, a_most, a_ten, a_delete, a_nine]
          = Inr dispatch
        \<and> dispatch act_create_user [] =
            Inr (Inr (''UserActions.createUser'', JObj [(''email'', JStr ''a@b.c'')], ''create_user'', [])))"
proof -
  let ?ds = "[a_seven, a_big, a_create, a_most, a_ten, a_delete, a_nine]"
  have o: "registration_order ?ds = [a_nine, a_ten, a_most, a_seven, a_big] @ a_create # [a_delete]"
    by (simp add: registration_order_def class_order_def is_digit_def digit_value_def decimal_def
        sample_actions)
  have n: "\<forall>d' \<in> set [a_delete]. meta d' \<noteq> meta a_create"
    by (simp add: sample_actions)
  have a: "action_name (action act_create_user) = meta a_create"
    by (simp add: act_create_user_def sample_actions)
  have l: "actionHandlers_of ?ds =
       [(''create_user'', echo ''9.create''), (''create_user'', echo ''10.create''),
        (''create_user'', echo ''4294967294.create''),
        (''create_user'', echo ''07.create''), (''create_user'', echo ''4294967295.create''),
        (''create_user'', echo ''UserActions.createUser''),
        (''delete_user'', echo ''UserActions.deleteUser'')]"
    by (simp add: actionHandlers_of_def eval_order sample_actions)
  from duplicate_action_last_wins [OF o n a, of "[]"] o l show ?thesis
    by (simp add: echo_def act_create_user_def sample_actions)
qed

text \<open>
  C10, as it is stated, fails. Of two handlers of one action, of the providers
  \<^verbatim>\<open>10\<close> and \<^verbatim>\<open>9\<close>, the one of \<^verbatim>\<open>9\<close> is discovered last and its group is made
  last, but the one of \<^verbatim>\<open>10\<close> is registered last and is the one called. And of three
  handlers of one action, of the classes \<^verbatim>\<open>UserActions\<close>, \<^verbatim>\<open>LegacyActions\<close> and
  \<^verbatim>\<open>UserActions\<close> again, the third is discovered last but the second is called.
\<close>

theorem last_discovered_action_is_not_kept:
  "groupBy [a_ten, a_nine] parentClass_name = [(''10'', [a_ten]), (''9'', [a_nine])]
   \<and> actionHandlers_of [a_ten, a_nine] =
       [(''create_user'', echo ''9.create''), (''create_user'', echo ''10.create'')]
   \<and> configureHasuraActionHandlers True [a_ten, a_nine] =
       Inr (handleAction (new_Map (actionHandlers_of [a_ten, a_nine])))
   \<and> handleAction (new_Map (actionHandlers_of [a_ten, a_nine])) act_create_user [] =
       Inr (Inr (''10.create'', JObj [(''email'', JStr ''a@b.c'')], ''create_user'', []))
   \<and> actionHandlers_of [a_create, a_create_legacy, a_invite] =
       [(''create_user'', echo ''UserActions.createUser''),
        (''create_user'', echo ''UserActions.inviteUser''),
        (''create_user'', echo ''LegacyActions.create'')]
   \<and> handleAction (new_Map (actionHandlers_of [a_create, a_create_legacy, a_invite]))
        act_create_user [] =
       Inr (Inr (''LegacyActions.create'', JObj [(''email'', JStr ''a@b.c'')], ''create_user'', []))"
proof -
  have g: "groupBy [a_ten, a_nine] parentClass_name = [(''10'', [a_ten]), (''9'', [a_nine])]"
    by (simp add: groupBy_def sample_actions)
  have 1: "actionHandlers_of [a_ten, a_nine] =
       [(''create_user'', echo ''9.create''), (''create_user'', echo ''10.create'')]"
    by (simp add: actionHandlers_of_def eval_order sample_actions)
  have 2: "actionHandlers_of [a_create, a_create_legacy, a_invite] =
       [(''create_user'', echo ''UserActions.createUser''),
        (''create_user'', echo ''UserActions.inviteUser''),
        (''create_user'', echo ''LegacyActions.create'')]"
    by (simp add: actionHandlers_of_def eval_order sample_actions)
  from g show ?thesis
    by (simp add: 1 2 configureHasuraActionHandlers_def handleAction_def new_Map_def
        echo_def act_create_user_def)
qed

end
